theory Spec2Isabelle
  imports Main "HOL-Library.AList"
begin

text \<open>
  The batch translation handler of \<open>index.js\<close>: request building in its two modes
  (\<open>processFile\<close> fills the missing cells of a table whose columns are languages,
  \<open>translateCsvToLanguage\<close> translates a whole CSV text), batching and dispatch
  (\<open>prepareAndExecuteTranslations\<close>), reassembly, and the HTTP handler. The translation
  provider, the download, the CSV parser and the CSV writer are parameters.
\<close>

section \<open>JavaScript values used by the configuration and the batching loop\<close>

text \<open>
  \<^verbatim>\<open>const MAX_BATCH_SIZE = process.env.MAX_BATCH_SIZE || 10;\<close>
  An environment variable of Node is either absent (\<open>undefined\<close>) or a string, so the
  constant is the number 10 (variable absent or the empty string, both falsy) or the
  string found in the environment. The loop of \<open>prepareAndExecuteTranslations\<close> adds the
  constant to its counter with \<open>+\<close>, which is addition on two numbers and string
  concatenation as soon as one operand is a string.
\<close>

datatype jsval = Num nat | Str string

definition digit_char :: "nat \<Rightarrow> char" where
  "digit_char d = char_of (48 + d)"

function to_decimal :: "nat \<Rightarrow> string" where
  "to_decimal n = (if n < 10 then [digit_char n] else to_decimal (n div 10) @ [digit_char (n mod 10)])"
  by pat_completeness auto
termination
  by (relation "measure id") auto

declare to_decimal.simps [simp del]

text \<open>\<open>ToString\<close> of a value: a non-negative integer prints in decimal.\<close>

fun js_to_string :: "jsval \<Rightarrow> string" where
  "js_to_string (Num n) = to_decimal n"
| "js_to_string (Str s) = s"

text \<open>The operator \<open>+\<close>: numeric addition on two numbers, otherwise concatenation.\<close>

fun js_add :: "jsval \<Rightarrow> jsval \<Rightarrow> jsval" where
  "js_add (Num a) (Num b) = Num (a + b)"
| "js_add a b = Str (js_to_string a @ js_to_string b)"

definition is_digit :: "char \<Rightarrow> bool" where
  "is_digit c = (48 \<le> (of_char c :: nat) \<and> (of_char c :: nat) \<le> 57)"

definition digit_val :: "char \<Rightarrow> nat" where
  "digit_val c = of_char c - 48"

text \<open>
  \<open>ToNumber\<close>, as the comparison \<open>i < requests.length\<close> and \<open>Array.prototype.slice\<close>
  apply it. A number is itself. A non-empty string of decimal digits is its decimal
  value (leading zeros allowed: \<open>Number("05")\<close> is 5). Every other string (signs,
  white space, fractions, exponents, hexadecimal, text) is outside this model: \<open>None\<close>.
\<close>

fun js_to_number :: "jsval \<Rightarrow> nat option" where
  "js_to_number (Num n) = Some n"
| "js_to_number (Str s) =
     (if s \<noteq> [] \<and> list_all is_digit s
      then Some (foldl (\<lambda>a c. 10 * a + digit_val c) 0 s) else None)"

definition MAX_BATCH_SIZE :: "string option \<Rightarrow> jsval" where
  "MAX_BATCH_SIZE env = (case env of None \<Rightarrow> Num 10 | Some s \<Rightarrow> if s = [] then Num 10 else Str s)"

text \<open>\<open>xs.slice(lo, hi)\<close> for non-negative integers: the elements at \<open>lo \<le> k < hi\<close>.\<close>

definition slice :: "nat \<Rightarrow> nat \<Rightarrow> 'a list \<Rightarrow> 'a list" where
  "slice lo hi xs = take (hi - lo) (drop lo xs)"

section \<open>The batching loop\<close>

text \<open>
  \<^verbatim>\<open>
  for (let i = 0; i < requests.length; i += MAX_BATCH_SIZE) {
    const batch = requests.slice(i, i + MAX_BATCH_SIZE);
    ...
  }
  \<close>
  The loop need not end (a step that parses to 0 never advances), so it runs on fuel:
  \<open>Done\<close> is the result of a run that ends, \<open>OutOfFuel\<close> a run cut off, and
  \<open>NotModelled\<close> a run that meets a string outside the model of \<open>ToNumber\<close>.
\<close>

datatype 'a outcome = Done 'a | OutOfFuel | NotModelled

fun batch_loop :: "nat \<Rightarrow> jsval \<Rightarrow> jsval \<Rightarrow> 'a list \<Rightarrow> 'a list list outcome" where
  "batch_loop 0 i m requests = OutOfFuel"
| "batch_loop (Suc fuel) i m requests =
     (case js_to_number i of
        None \<Rightarrow> NotModelled
      | Some lo \<Rightarrow>
          if lo < length requests then
            (case js_to_number (js_add i m) of
               None \<Rightarrow> NotModelled
             | Some hi \<Rightarrow>
                 (case batch_loop fuel (js_add i m) m requests of
                    Done bs \<Rightarrow> Done (slice lo hi requests # bs)
                  | r \<Rightarrow> r))
          else Done [])"

definition batches :: "nat \<Rightarrow> jsval \<Rightarrow> 'a list \<Rightarrow> 'a list list outcome" where
  "batches fuel m requests = batch_loop fuel (Num 0) m requests"

section \<open>Strings\<close>

text \<open>
  A string is the list of its code units; the model covers code units below 256
  (ASCII and Latin-1). \<open>String.prototype.trim\<close> strips white space and line
  terminators, which in that range are TAB, LF, VT, FF, CR, SPACE and NBSP.
\<close>

definition js_ws :: "char \<Rightarrow> bool" where
  "js_ws c = ((of_char c :: nat) \<in> {9, 10, 11, 12, 13, 32, 160})"

definition trim :: "string \<Rightarrow> string" where
  "trim s = rev (dropWhile js_ws (rev (dropWhile js_ws s)))"

text \<open>
  \<open>toLowerCase\<close> on that range: A-Z and the Latin-1 capitals (U+00C0 to U+00DE without
  the multiplication sign U+00D7) move up by 32.
\<close>

definition lower_char :: "char \<Rightarrow> char" where
  "lower_char c =
     (let n = (of_char c :: nat)
      in if (65 \<le> n \<and> n \<le> 90) \<or> (192 \<le> n \<and> n \<le> 222 \<and> n \<noteq> 215)
         then char_of (n + 32) else c)"

definition toLowerCase :: "string \<Rightarrow> string" where
  "toLowerCase s = map lower_char s"

text \<open>
  A cell read from a row is a string or \<open>undefined\<close> (\<open>None\<close>). The two tests of
  \<open>processFile\<close>, \<^verbatim>\<open>!row[c] || row[c].trim() === ''\<close> and its negation
  \<^verbatim>\<open>row[c] && row[c].trim() !== ''\<close>, are \<open>is_missing\<close> and \<open>\<not> is_missing\<close>.
\<close>

definition truthy :: "string \<Rightarrow> bool" where
  "truthy s = (s \<noteq> [])"

definition is_missing :: "string option \<Rightarrow> bool" where
  "is_missing v = (case v of None \<Rightarrow> True | Some s \<Rightarrow> \<not> truthy s \<or> trim s = [])"

section \<open>Errors\<close>

datatype error =
    EmptyFile string
  | UnsupportedLanguage string
  | DownloadFailed string
  | Thrown string

text \<open>\<open>error.message\<close> of each \<open>new Error(...)\<close> of the source.\<close>

fun message :: "error \<Rightarrow> string" where
  "message (EmptyFile fileName) = ''The CSV file '' @ fileName @ '' is empty.''"
| "message (UnsupportedLanguage lang) = ''Unsupported language code: '' @ lang"
| "message (DownloadFailed name) = ''Failed to download file: '' @ name"
| "message (Thrown msg) = msg"

section \<open>Language validation\<close>

definition supportedLanguages :: "string list" where
  "supportedLanguages = [
    ''English'', ''Spanish'', ''French'', ''German'', ''Chinese'', ''Japanese'',
    ''Korean'', ''Russian'', ''Arabic'', ''Portuguese'', ''Italian'', ''Dutch'', ''Greek'',
    ''Hebrew'', ''Hindi'', ''Norwegian'', ''Polish'', ''Swedish'', ''Turkish'',
    ''Vietnamese'', ''Thai'', ''Indonesian'', ''Malay'', ''Bengali'', ''Punjabi'',
    ''Tamil'', ''Telugu'', ''Marathi'', ''Gujarati'', ''Kannada'', ''Urdu'', ''Persian'',
    ''Ukrainian'', ''Romanian'', ''Hungarian'', ''Czech'', ''Slovak'', ''Bulgarian'',
    ''Croatian'', ''Serbian'', ''Finnish'', ''Danish'', ''Icelandic'', ''Filipino'',
    ''Swahili'', ''Zulu'', ''Afrikaans'', ''Amharic'', ''Yoruba'', ''Hausa'', ''Igbo'',
    ''Burmese'', ''Khmer'', ''Lao'', ''Sinhala'', ''Nepali'', ''Pashto'', ''Somali'',
    ''Tigrinya'', ''Mongolian'', ''Kazakh'', ''Uzbek'', ''Tajik'', ''Kyrgyz'', ''Turkmen'',
    ''Azerbaijani'', ''Georgian'', ''Armenian'', ''Albanian'', ''Bosnian'', ''Macedonian'',
    ''Montenegrin'', ''Slovenian'', ''Latvian'', ''Lithuanian'', ''Estonian'', ''Maltese'',
    ''Luxembourgish'', ''Welsh'', ''Irish'', ''Scottish Gaelic'', ''Breton'', ''Basque'',
    ''Galician'', ''Catalan'', ''Occitan'', ''Corsican'', ''Sardinian'']"

definition validateLanguageCode :: "string \<Rightarrow> error + unit" where
  "validateLanguageCode lang =
     (if trim (toLowerCase lang) \<in> set (map (\<lambda>language. trim (toLowerCase language)) supportedLanguages)
      then Inr () else Inl (UnsupportedLanguage lang))"

section \<open>Tables and translation requests\<close>

text \<open>
  A row is the object that the CSV parser builds: its entries in the order of
  \<open>Object.keys\<close>. \<open>row[col]\<close> of an absent key is \<open>undefined\<close>.
\<close>

type_synonym row = "(string \<times> string) list"
type_synonym table = "row list"

definition object_keys :: "row \<Rightarrow> string list" where
  "object_keys row = map fst row"

text \<open>The field \<open>text\<close> of a request is \<open>req_text\<close> (\<open>text\<close> is a keyword here).\<close>

record text_request =
  req_text :: string

record request = text_request +
  rowIndex :: nat
  sourceLang :: string
  targetLang :: string

text \<open>
  \<^verbatim>\<open>
  columns.forEach((targetLang) => {
    if (!row[targetLang] || row[targetLang].trim() === '') {
      const sourceLang = columns.find(
        (col) => col !== targetLang && row[col] && row[col].trim() !== '');
      if (sourceLang) {
        validateLanguageCode(sourceLang);
        validateLanguageCode(targetLang);
        translationRequests.push({ rowIndex, sourceLang, targetLang, text: row[sourceLang] });
      }
    }
  });
  \<close>
  \<open>cols\<close> is what is left of the iteration, \<open>acc\<close> is \<open>translationRequests\<close>; an
  exception of the validation ends the whole scan. The text of a request is read only
  after \<open>find\<close> has seen the cell, so it is never \<open>undefined\<close>.
\<close>

definition find_source :: "row \<Rightarrow> string \<Rightarrow> string option" where
  "find_source row target =
     find (\<lambda>col. col \<noteq> target \<and> \<not> is_missing (map_of row col)) (object_keys row)"

definition cell_text :: "row \<Rightarrow> string \<Rightarrow> string" where
  "cell_text row col = (case map_of row col of Some v \<Rightarrow> v | None \<Rightarrow> [])"

fun scan_columns :: "nat \<Rightarrow> row \<Rightarrow> string list \<Rightarrow> request list \<Rightarrow> error + request list" where
  "scan_columns i row [] acc = Inr acc"
| "scan_columns i row (target # cols) acc =
     (if is_missing (map_of row target) then
        (case find_source row target of
           None \<Rightarrow> scan_columns i row cols acc
         | Some source \<Rightarrow>
             if truthy source then
               (case validateLanguageCode source of
                  Inl e \<Rightarrow> Inl e
                | Inr _ \<Rightarrow>
                    (case validateLanguageCode target of
                       Inl e \<Rightarrow> Inl e
                     | Inr _ \<Rightarrow>
                         scan_columns i row cols
                           (acc @ [\<lparr>req_text = cell_text row source, rowIndex = i,
                                    sourceLang = source, targetLang = target\<rparr>])))
             else scan_columns i row cols acc)
      else scan_columns i row cols acc)"

fun scan_rows :: "nat \<Rightarrow> table \<Rightarrow> request list \<Rightarrow> error + request list" where
  "scan_rows i [] acc = Inr acc"
| "scan_rows i (row # rows) acc =
     (case scan_columns i row (object_keys row) acc of
        Inl e \<Rightarrow> Inl e
      | Inr acc' \<Rightarrow> scan_rows (Suc i) rows acc')"

definition build_requests :: "table \<Rightarrow> error + request list" where
  "build_requests rows = scan_rows 0 rows []"

section \<open>Grouping by language pair\<close>

text \<open>
  \<open>requestsByLangPair\<close> is an object keyed by \<^verbatim>\<open>`${sourceLang}-${targetLang}`\<close>;
  \<open>Object.entries\<close> lists it in order of insertion. A new key is appended with its
  first request, a known key has the request pushed on its array.
\<close>

definition pair_key :: "request \<Rightarrow> string" where
  "pair_key r = sourceLang r @ ''-'' @ targetLang r"

definition group_add :: "(string \<times> request list) list \<Rightarrow> request \<Rightarrow> (string \<times> request list) list" where
  "group_add groups r =
     (case map_of groups (pair_key r) of
        None \<Rightarrow> AList.update (pair_key r) [r] groups
      | Some rs \<Rightarrow> AList.update (pair_key r) (rs @ [r]) groups)"

definition group_requests :: "request list \<Rightarrow> (string \<times> request list) list" where
  "group_requests rs = foldl group_add [] rs"

text \<open>\<open>s.split(c)\<close> for a one-character separator: always at least one piece.\<close>

fun split_on :: "char \<Rightarrow> string \<Rightarrow> string list" where
  "split_on c [] = [[]]"
| "split_on c (x # xs) =
     (if x = c then [] # split_on c xs
      else (case split_on c xs of [] \<Rightarrow> [[x]] | p # ps \<Rightarrow> (x # p) # ps))"

text \<open>
  \<^verbatim>\<open>const [sourceLang, targetLang] = langPair.split('-');\<close>
  The two names only reach the prompt, through a template literal, where a missing piece
  prints as \<open>undefined\<close>.
\<close>

definition split_pair :: "string \<Rightarrow> string \<times> string" where
  "split_pair langPair =
     (case split_on CHR ''-'' langPair of
        [] \<Rightarrow> (''undefined'', ''undefined'')
      | [a] \<Rightarrow> (a, ''undefined'')
      | a # b # _ \<Rightarrow> (a, b))"

section \<open>The Translation Provider and the dispatch of batches\<close>

record translation =
  original_text :: string
  translated_text :: string

text \<open>The argument of \<open>translateTextBatch\<close>.\<close>

record call =
  texts :: "string list"
  call_sourceLang :: string
  call_targetLang :: string

text \<open>
  \<open>translateTextBatch\<close> asks the external model and parses its answer; it returns the
  array of translations or throws. The provider of a run is a function of the number of
  the call within the run and of the call: \<open>Inl msg\<close> is an exception with that message.
\<close>

type_synonym provider = "nat \<Rightarrow> call \<Rightarrow> string + translation list"

text \<open>
  \<open>Promise.all\<close>: the array of all results, or a rejection as soon as one promise
  rejects. Which rejection arrives first depends on timing; the model takes the first in
  the order of submission.
\<close>

fun promise_all :: "('e + 'a) list \<Rightarrow> 'e + 'a list" where
  "promise_all [] = Inr []"
| "promise_all (Inl e # rs) = Inl e"
| "promise_all (Inr x # rs) = (case promise_all rs of Inl e \<Rightarrow> Inl e | Inr xs \<Rightarrow> Inr (x # xs))"

definition batch_call :: "string \<Rightarrow> string \<Rightarrow> 'a text_request_scheme list \<Rightarrow> call" where
  "batch_call source target batch =
     \<lparr>texts = map req_text batch, call_sourceLang = source, call_targetLang = target\<rparr>"

fun dispatch :: "provider \<Rightarrow> nat \<Rightarrow> call list \<Rightarrow> (string + translation list) list" where
  "dispatch p n [] = []"
| "dispatch p n (c # cs) = p n c # dispatch p (Suc n) cs"

text \<open>
  \<open>prepareAndExecuteTranslations\<close>: one call per batch, all of them issued (a failed call
  cancels none of the others), the results flattened in the order of the batches. The
  result carries the calls that were made; \<open>n\<close> numbers the first of them. The limiter
  of \<open>p-limit\<close>, built from \<open>MAX_CONCURRENCY_REQ\<close> (taken as unset: the number 100), only
  delays calls and is not part of the model.
\<close>

definition prepareAndExecuteTranslations ::
  "nat \<Rightarrow> jsval \<Rightarrow> provider \<Rightarrow> nat \<Rightarrow> 'a text_request_scheme list \<Rightarrow> string \<Rightarrow> string
     \<Rightarrow> (call list \<times> (error + translation list)) outcome" where
  "prepareAndExecuteTranslations fuel m p n requests source target =
     (case batches fuel m requests of
        OutOfFuel \<Rightarrow> OutOfFuel
      | NotModelled \<Rightarrow> NotModelled
      | Done bs \<Rightarrow>
          (let calls = map (batch_call source target) bs
           in Done (calls,
                (case promise_all (dispatch p n calls) of
                   Inl msg \<Rightarrow> Inl (Thrown msg)
                 | Inr translationResults \<Rightarrow> Inr (concat translationResults)))))"

section \<open>Fill-missing-cells mode: \<open>processFile\<close>\<close>

text \<open>
  \<^verbatim>\<open>
  requests.forEach(({ rowIndex, targetLang, text }) => {
    const translatedText = translations.find(
      (translation) => translation.original_text === text)?.translated_text;
    if (translatedText) { rows[rowIndex][targetLang] = translatedText; }
  });
  \<close>
  An assignment to a row that does not exist would throw a \<open>TypeError\<close>.
\<close>

definition find_translation :: "translation list \<Rightarrow> string \<Rightarrow> translation option" where
  "find_translation translations txt = find (\<lambda>translation. original_text translation = txt) translations"

definition apply_request :: "translation list \<Rightarrow> table \<Rightarrow> request \<Rightarrow> error + table" where
  "apply_request translations rows r =
     (case find_translation translations (req_text r) of
        None \<Rightarrow> Inr rows
      | Some translation \<Rightarrow>
          if truthy (translated_text translation) then
            (if rowIndex r < length rows
             then Inr (rows[rowIndex r :=
                         AList.update (targetLang r) (translated_text translation) (rows ! rowIndex r)])
             else Inl (Thrown ''TypeError: Cannot set properties of undefined''))
          else Inr rows)"

fun apply_requests :: "translation list \<Rightarrow> table \<Rightarrow> request list \<Rightarrow> error + table" where
  "apply_requests translations rows [] = Inr rows"
| "apply_requests translations rows (r # rs) =
     (case apply_request translations rows r of
        Inl e \<Rightarrow> Inl e
      | Inr rows' \<Rightarrow> apply_requests translations rows' rs)"

text \<open>
  The loop over the language pairs: each pair is dispatched and awaited, and its
  translations are written into the rows, before the next pair starts. An exception
  leaves the loop, and the rows written so far are not returned.
\<close>

fun process_groups ::
  "nat \<Rightarrow> jsval \<Rightarrow> provider \<Rightarrow> nat \<Rightarrow> (string \<times> request list) list \<Rightarrow> table
     \<Rightarrow> (call list \<times> (error + table)) outcome" where
  "process_groups fuel m p n [] rows = Done ([], Inr rows)"
| "process_groups fuel m p n ((langPair, requests) # groups) rows =
     (case prepareAndExecuteTranslations fuel m p n requests
             (fst (split_pair langPair)) (snd (split_pair langPair)) of
        OutOfFuel \<Rightarrow> OutOfFuel
      | NotModelled \<Rightarrow> NotModelled
      | Done (calls, Inl e) \<Rightarrow> Done (calls, Inl e)
      | Done (calls, Inr translations) \<Rightarrow>
          (case apply_requests translations rows requests of
             Inl e \<Rightarrow> Done (calls, Inl e)
           | Inr rows' \<Rightarrow>
               (case process_groups fuel m p (n + length calls) groups rows' of
                  OutOfFuel \<Rightarrow> OutOfFuel
                | NotModelled \<Rightarrow> NotModelled
                | Done (calls', res) \<Rightarrow> Done (calls @ calls', res))))"

text \<open>
  \<open>processFile\<close> from the parsed rows to the rows that are handed to \<open>writeCsvData\<close>
  (lines 177 to 244), with the calls made to the provider.
\<close>

definition processRows ::
  "nat \<Rightarrow> jsval \<Rightarrow> provider \<Rightarrow> table \<Rightarrow> string \<Rightarrow> (call list \<times> (error + table)) outcome" where
  "processRows fuel m p rows fileName =
     (if length rows = 0 then Done ([], Inl (EmptyFile fileName))
      else
        (case build_requests rows of
           Inl e \<Rightarrow> Done ([], Inl e)
         | Inr translationRequests \<Rightarrow>
             if length translationRequests = 0 then Done ([], Inr rows)
             else process_groups fuel m p 0 (group_requests translationRequests) rows))"

text \<open>
  The file returned to the handler. \<open>content\<close> is the CSV text, which the source then
  encodes in base64. The parser (\<open>csv-parser\<close>) and the record stringifier
  (\<open>csv-writer\<close>) are libraries: parameters of the model.
\<close>

record file_out =
  name :: string
  mime_type :: string
  content :: string

definition writeCsvData :: "(string list \<Rightarrow> table \<Rightarrow> string) \<Rightarrow> table \<Rightarrow> string" where
  "writeCsvData stringifier rows =
     (case rows of [] \<Rightarrow> [] | row0 # _ \<Rightarrow> stringifier (object_keys row0) rows)"

definition processFile ::
  "nat \<Rightarrow> jsval \<Rightarrow> provider \<Rightarrow> (string \<Rightarrow> string + table) \<Rightarrow> (string list \<Rightarrow> table \<Rightarrow> string)
     \<Rightarrow> string \<Rightarrow> string \<Rightarrow> (call list \<times> (error + file_out)) outcome" where
  "processFile fuel m p parseCsvData stringifier csv_data fileName =
     (case parseCsvData csv_data of
        Inl msg \<Rightarrow> Done ([], Inl (Thrown msg))
      | Inr rows \<Rightarrow>
          (case processRows fuel m p rows fileName of
             OutOfFuel \<Rightarrow> OutOfFuel
           | NotModelled \<Rightarrow> NotModelled
           | Done (calls, Inl e) \<Rightarrow> Done (calls, Inl e)
           | Done (calls, Inr rows') \<Rightarrow>
               Done (calls, Inr \<lparr>name = ''translated_'' @ fileName, mime_type = ''text/csv'',
                                 content = writeCsvData stringifier rows'\<rparr>)))"

section \<open>Whole-table mode: \<open>translateCsvToLanguage\<close>\<close>

text \<open>\<^verbatim>\<open>const rows = csvData.split('\n').map(row => row.split(','));\<close>\<close>

definition parse_rows :: "string \<Rightarrow> string list list" where
  "parse_rows csvData = map (split_on CHR '','') (split_on (CHR 0x0A) csvData)"

text \<open>A \<open>Set\<close> keeps its elements in the order of their first insertion.\<close>

definition set_add :: "'a list \<Rightarrow> 'a \<Rightarrow> 'a list" where
  "set_add s x = (if x \<in> set s then s else s @ [x])"

definition collect_cell :: "string list \<Rightarrow> string \<Rightarrow> string list" where
  "collect_cell textsSet cell = (if truthy cell \<and> trim cell \<noteq> [] then set_add textsSet cell else textsSet)"

definition collect_texts :: "string list list \<Rightarrow> string list" where
  "collect_texts rows = foldl (\<lambda>textsSet row. foldl collect_cell textsSet row) [] rows"

definition whole_table_requests :: "string list list \<Rightarrow> text_request list" where
  "whole_table_requests rows = map (\<lambda>t. \<lparr>req_text = t\<rparr>) (collect_texts rows)"

text \<open>\<open>translationMap\<close>: a later result for the same original text replaces an earlier one.\<close>

definition translation_map :: "translation list \<Rightarrow> (string \<rightharpoonup> string)" where
  "translation_map translations =
     foldl (\<lambda>m t. m(original_text t \<mapsto> translated_text t)) Map.empty translations"

text \<open>\<^verbatim>\<open>translationMap.get(cell) || cell\<close>\<close>

definition translate_cell :: "(string \<rightharpoonup> string) \<Rightarrow> string \<Rightarrow> string" where
  "translate_cell translationMap cell =
     (case translationMap cell of
        None \<Rightarrow> cell
      | Some translated \<Rightarrow> if truthy translated then translated else cell)"

fun join :: "string \<Rightarrow> string list \<Rightarrow> string" where
  "join sep [] = []"
| "join sep [x] = x"
| "join sep (x # y # ys) = x @ sep @ join sep (y # ys)"

text \<open>
  \<open>translateCsvToLanguage\<close>. \<open>content\<close> is the CSV text before the base64 encoding;
  \<open>basename\<close> stands for \<open>path.basename\<close> of Node.
\<close>

definition translateCsvToLanguage ::
  "nat \<Rightarrow> jsval \<Rightarrow> provider \<Rightarrow> (string \<Rightarrow> string) \<Rightarrow> string \<Rightarrow> string \<Rightarrow> string
     \<Rightarrow> (call list \<times> (error + file_out)) outcome" where
  "translateCsvToLanguage fuel m p basename csvData fileName lang =
     (case validateLanguageCode lang of
        Inl e \<Rightarrow> Done ([], Inl e)
      | Inr _ \<Rightarrow>
          (let rows = parse_rows csvData
           in if length rows = 0 then Done ([], Inl (EmptyFile fileName))
              else
                (case prepareAndExecuteTranslations fuel m p 0 (whole_table_requests rows)
                        ''any language'' lang of
                   OutOfFuel \<Rightarrow> OutOfFuel
                 | NotModelled \<Rightarrow> NotModelled
                 | Done (calls, Inl e) \<Rightarrow> Done (calls, Inl e)
                 | Done (calls, Inr translations) \<Rightarrow>
                     (let translatedRows = map (map (translate_cell (translation_map translations))) rows
                      in Done (calls,
                           Inr \<lparr>name = ''translated_'' @ basename fileName, mime_type = ''text/csv'',
                                content = join [CHR 0x0A] (map (join '','') translatedRows)\<rparr>)))))"

section \<open>The HTTP handler\<close>

record fileRef =
  ref_name :: string
  download_link :: string

datatype refs_field = NotAnArray | Array "fileRef list"

record request_body =
  openaiFileIdRefs :: refs_field
  language :: "string option"

text \<open>\<open>fetch\<close> throws, or gives a response with its \<open>ok\<close> flag and its text.\<close>

datatype fetch_result = FetchThrows string | Response bool string

record world =
  env_MAX_BATCH_SIZE :: "string option"
  provider_of :: "nat \<Rightarrow> provider"
  fetch :: "string \<Rightarrow> fetch_result"
  parseCsvData :: "string \<Rightarrow> string + table"
  stringifier :: "string list \<Rightarrow> table \<Rightarrow> string"
  basename :: "string \<Rightarrow> string"

datatype payload = ErrorBody string | Files "file_out list"

record http_response =
  status :: nat
  payload :: payload

text \<open>
  The function mapped over \<open>openaiFileIdRefs\<close>; \<open>k\<close> is the position of the file, whose
  run has the provider \<open>provider_of w k\<close>.
\<close>

definition handle_file ::
  "world \<Rightarrow> nat \<Rightarrow> string option \<Rightarrow> nat \<Rightarrow> fileRef \<Rightarrow> (call list \<times> (error + file_out)) outcome" where
  "handle_file w fuel lang k ref =
     (case fetch w (download_link ref) of
        FetchThrows msg \<Rightarrow> Done ([], Inl (Thrown msg))
      | Response ok csvData \<Rightarrow>
          if \<not> ok then Done ([], Inl (DownloadFailed (ref_name ref)))
          else if (case lang of None \<Rightarrow> False | Some l \<Rightarrow> truthy l)
          then translateCsvToLanguage fuel (MAX_BATCH_SIZE (env_MAX_BATCH_SIZE w)) (provider_of w k)
                 (basename w) csvData (ref_name ref) (case lang of None \<Rightarrow> [] | Some l \<Rightarrow> l)
          else processFile fuel (MAX_BATCH_SIZE (env_MAX_BATCH_SIZE w)) (provider_of w k)
                 (parseCsvData w) (stringifier w) csvData (ref_name ref))"

fun all_done :: "'a outcome list \<Rightarrow> 'a list outcome" where
  "all_done [] = Done []"
| "all_done (Done x # os) = (case all_done os of Done xs \<Rightarrow> Done (x # xs) | OutOfFuel \<Rightarrow> OutOfFuel | NotModelled \<Rightarrow> NotModelled)"
| "all_done (OutOfFuel # os) = OutOfFuel"
| "all_done (NotModelled # os) = NotModelled"

text \<open>\<^verbatim>\<open>error.message || 'Internal Server Error'\<close>\<close>

definition error_body :: "error \<Rightarrow> payload" where
  "error_body e = ErrorBody (if truthy (message e) then message e else ''Internal Server Error'')"

definition translateHandler :: "world \<Rightarrow> nat \<Rightarrow> request_body \<Rightarrow> http_response outcome" where
  "translateHandler w fuel body =
     (case openaiFileIdRefs body of
        NotAnArray \<Rightarrow>
          Done \<lparr>status = 400, payload = ErrorBody ''Invalid or empty \"openaiFileIdRefs\" array.''\<rparr>
      | Array refs \<Rightarrow>
          if length refs = 0
          then Done \<lparr>status = 400, payload = ErrorBody ''Invalid or empty \"openaiFileIdRefs\" array.''\<rparr>
          else
            (case all_done (map (\<lambda>(k, ref). handle_file w fuel (language body) k ref) (enumerate 0 refs)) of
               OutOfFuel \<Rightarrow> OutOfFuel
             | NotModelled \<Rightarrow> NotModelled
             | Done results \<Rightarrow>
                 (case promise_all (map snd results) of
                    Inl e \<Rightarrow> Done \<lparr>status = 500, payload = error_body e\<rparr>
                  | Inr translatedFiles \<Rightarrow> Done \<lparr>status = 200, payload = Files translatedFiles\<rparr>)))"

section \<open>Notions used by the properties\<close>

text \<open>A cell text that is neither empty nor white space only.\<close>

definition nonblank :: "string \<Rightarrow> bool" where
  "nonblank s = (s \<noteq> [] \<and> trim s \<noteq> [])"

text \<open>The elements of a list, each once, in the order of their first occurrence.\<close>

definition first_occurrences :: "'a list \<Rightarrow> 'a list" where
  "first_occurrences xs = rev (remdups (rev xs))"

text \<open>
  A cell of a row qualifies for a request in fill mode when it is missing and \<open>find\<close>
  gives a source column that passes the test \<open>if (sourceLang)\<close>.
\<close>

definition qualifies :: "row \<Rightarrow> string \<Rightarrow> bool" where
  "qualifies row target =
     (is_missing (map_of row target) \<and>
      (case find_source row target of None \<Rightarrow> False | Some source \<Rightarrow> truthy source))"

definition qualifying_cells :: "table \<Rightarrow> (nat \<times> string) list" where
  "qualifying_cells rows =
     concat (map (\<lambda>(i, row). map (Pair i) (filter (qualifies row) (object_keys row))) (enumerate 0 rows))"

definition position :: "request \<Rightarrow> nat \<times> string" where
  "position r = (rowIndex r, targetLang r)"

text \<open>
  The requests of fill mode as the specification words them, without the functions of
  the code. A column of a row is filled when the row has a non-blank value for it.
\<close>

definition filled :: "row \<Rightarrow> string \<Rightarrow> bool" where
  "filled row col = (case map_of row col of None \<Rightarrow> False | Some v \<Rightarrow> nonblank v)"

definition value_at :: "row \<Rightarrow> string \<Rightarrow> string" where
  "value_at row col = (case map_of row col of None \<Rightarrow> [] | Some v \<Rightarrow> v)"

text \<open>The first of the columns \<open>cols\<close>, other than \<open>target\<close>, that is filled.\<close>

fun first_filled :: "row \<Rightarrow> string \<Rightarrow> string list \<Rightarrow> string option" where
  "first_filled row target [] = None"
| "first_filled row target (col # cols) =
     (if col \<noteq> target \<and> filled row col then Some col else first_filled row target cols)"

definition spec_request :: "nat \<Rightarrow> row \<Rightarrow> string \<Rightarrow> request option" where
  "spec_request i row target =
     (if filled row target then None
      else map_option
             (\<lambda>source. \<lparr>req_text = value_at row source, rowIndex = i,
                          sourceLang = source, targetLang = target\<rparr>)
             (first_filled row target (map fst row)))"

fun spec_requests_from :: "nat \<Rightarrow> table \<Rightarrow> request list" where
  "spec_requests_from i [] = []"
| "spec_requests_from i (row # rows) =
     List.map_filter (spec_request i row) (map fst row) @ spec_requests_from (Suc i) rows"

definition spec_requests :: "table \<Rightarrow> request list" where
  "spec_requests rows = spec_requests_from 0 rows"

text \<open>
  The cells that qualify for a request: not filled, in a row with another column that
  is filled.
\<close>

definition has_source :: "row \<Rightarrow> string \<Rightarrow> bool" where
  "has_source row target = list_ex (\<lambda>col. col \<noteq> target \<and> filled row col) (map fst row)"

fun spec_cells_from :: "nat \<Rightarrow> table \<Rightarrow> (nat \<times> string) list" where
  "spec_cells_from i [] = []"
| "spec_cells_from i (row # rows) =
     map (Pair i) (filter (\<lambda>target. \<not> filled row target \<and> has_source row target) (map fst row))
       @ spec_cells_from (Suc i) rows"

definition spec_cells :: "table \<Rightarrow> (nat \<times> string) list" where
  "spec_cells rows = spec_cells_from 0 rows"

text \<open>
  The language names of a list of requests in the order of their validation (source
  before target), and the first of them that the validation refuses.
\<close>

definition request_names :: "request list \<Rightarrow> string list" where
  "request_names reqs = concat (map (\<lambda>r. [sourceLang r, targetLang r]) reqs)"

definition first_unsupported :: "request list \<Rightarrow> string option" where
  "first_unsupported reqs = find (\<lambda>lang. validateLanguageCode lang \<noteq> Inr ()) (request_names reqs)"

text \<open>The requests whose source column has a name.\<close>

definition named_source :: "request list \<Rightarrow> request list" where
  "named_source reqs = filter (\<lambda>r. sourceLang r \<noteq> []) reqs"





text \<open>
  The cell that reassembly yields for a cell text, from the results of the provider: the
  non-empty translation of the last result for that text, else the text itself.
\<close>

definition mapped_cell :: "translation list \<Rightarrow> string \<Rightarrow> string" where
  "mapped_cell ts cell =
     (case find (\<lambda>x. original_text x = cell) (rev ts) of
        None \<Rightarrow> cell
      | Some x \<Rightarrow> if translated_text x \<noteq> [] then translated_text x else cell)"

text \<open>\<open>openaiFileIdRefs\<close> is an array with at least one element.\<close>

fun nonempty_array :: "refs_field \<Rightarrow> bool" where
  "nonempty_array NotAnArray = False"
| "nonempty_array (Array refs) = (refs \<noteq> [])"

fun array_items :: "refs_field \<Rightarrow> fileRef list" where
  "array_items NotAnArray = []"
| "array_items (Array refs) = refs"

text \<open>The fuel exceeds the number of cells of the table that a reference downloads.\<close>

definition enough_fuel :: "world \<Rightarrow> nat \<Rightarrow> fileRef \<Rightarrow> bool" where
  "enough_fuel w fuel ref =
     (case fetch w (download_link ref) of
        FetchThrows msg \<Rightarrow> True
      | Response ok csvData \<Rightarrow>
          length (concat (parse_rows csvData)) < fuel \<and>
          (case parseCsvData w csvData of Inl msg \<Rightarrow> True | Inr rows \<Rightarrow> length (concat rows) < fuel))"

section \<open>Example inputs\<close>

text \<open>
  A provider whose every call throws, one that answers every call with no translation
  at all, and one that answers each text with an empty translation.
\<close>

definition failing_provider :: provider where
  "failing_provider n c = Inl ''provider unavailable''"


definition blank_provider :: provider where
  "blank_provider n c = Inr (map (\<lambda>t. \<lparr>original_text = t, translated_text = []\<rparr>) (texts c))"

text \<open>A provider that puts the target language in brackets behind each text.\<close>

definition tagging_provider :: provider where
  "tagging_provider n c =
     Inr (map (\<lambda>t. \<lparr>original_text = t, translated_text = t @ ''['' @ call_targetLang c @ '']''\<rparr>) (texts c))"

text \<open>A table with one row that lacks its French cell, and a parser that yields it.\<close>

definition hello_table :: table where
  "hello_table = [[(''English'', ''hello''), (''French'', '''')]]"

definition hello_parser :: "string \<Rightarrow> string + table" where
  "hello_parser csv_data = Inr hello_table"

definition hello_request :: request where
  "hello_request = \<lparr>req_text = ''hello'', rowIndex = 0, sourceLang = ''English'', targetLang = ''French''\<rparr>"

text \<open>The table of Scenario A of the specification, with its column names \<open>en\<close> and \<open>fr\<close>.\<close>

definition scenario_A_table :: table where
  "scenario_A_table = [[(''en'', ''hello''), (''fr'', '''')]]"

text \<open>A stringifier that ignores its input, and the identity for \<open>path.basename\<close>.\<close>

definition no_stringifier :: "string list \<Rightarrow> table \<Rightarrow> string" where
  "no_stringifier header rows = []"

definition plain_basename :: "string \<Rightarrow> string" where
  "plain_basename fileName = fileName"

text \<open>A row without any text: nothing to translate from.\<close>

definition blank_table :: table where
  "blank_table = [[(''English'', ''''), (''French'', '''')]]"

text \<open>A table without any missing cell.\<close>

definition full_table :: table where
  "full_table = [[(''English'', ''hello''), (''French'', ''bonjour'')]]"




text \<open>A CSV text of two lines: the header \<open>name\<close> and the row \<open>Ann\<close>.\<close>

definition name_city_csv :: string where
  "name_city_csv = ''name'' @ [CHR 0x0A] @ ''Ann''"

text \<open>
  Two worlds for the handler: in one every download is refused, in the other every
  download succeeds and parses to a table without missing cells.
\<close>

definition offline_world :: world where
  "offline_world =
     \<lparr>env_MAX_BATCH_SIZE = None, provider_of = (\<lambda>k. failing_provider),
      fetch = (\<lambda>link. Response False []), parseCsvData = hello_parser,
      stringifier = no_stringifier, basename = plain_basename\<rparr>"

definition full_world :: world where
  "full_world =
     \<lparr>env_MAX_BATCH_SIZE = None, provider_of = (\<lambda>k. failing_provider),
      fetch = (\<lambda>link. Response True []), parseCsvData = (\<lambda>csv_data. Inr full_table),
      stringifier = no_stringifier, basename = plain_basename\<rparr>"

definition one_file :: request_body where
  "one_file = \<lparr>openaiFileIdRefs = Array [\<lparr>ref_name = ''a.csv'', download_link = ''https://files/a''\<rparr>],
                language = None\<rparr>"

definition no_files :: request_body where
  "no_files = \<lparr>openaiFileIdRefs = Array [], language = None\<rparr>"




text \<open>
  A row whose first column is empty, whose second column has the text, and whose third
  column, \<open>notes\<close>, is no language and takes part in no request.
\<close>

definition notes_table :: table where
  "notes_table = [[(''English'', ''''), (''French'', ''bonjour''), (''notes'', ''x'')]]"

definition notes_request :: request where
  "notes_request = \<lparr>req_text = ''bonjour'', rowIndex = 0, sourceLang = ''French'', targetLang = ''English''\<rparr>"


text \<open>A row whose only text is in a column without a name.\<close>

definition unnamed_table :: table where
  "unnamed_table = [[('''', ''hello''), (''French'', '''')]]"







text \<open>
  A world in which every download is the empty text, which the CSV parser turns into a
  table without rows; and the request for one file with the language French.
\<close>

definition empty_world :: world where
  "empty_world =
     \<lparr>env_MAX_BATCH_SIZE = None, provider_of = (\<lambda>k. failing_provider),
      fetch = (\<lambda>link. Response True []), parseCsvData = (\<lambda>csv_data. Inr []),
      stringifier = no_stringifier, basename = plain_basename\<rparr>"

definition one_file_french :: request_body where
  "one_file_french =
     \<lparr>openaiFileIdRefs = Array [\<lparr>ref_name = ''a.csv'', download_link = ''https://files/a''\<rparr>],
      language = Some ''French''\<rparr>"

section \<open>Facts about language validation\<close>

lemma normalized_languages:
  "map (\<lambda>language. trim (toLowerCase language)) supportedLanguages = [
    ''english'', ''spanish'', ''french'', ''german'', ''chinese'', ''japanese'',
    ''korean'', ''russian'', ''arabic'', ''portuguese'', ''italian'', ''dutch'', ''greek'',
    ''hebrew'', ''hindi'', ''norwegian'', ''polish'', ''swedish'', ''turkish'',
    ''vietnamese'', ''thai'', ''indonesian'', ''malay'', ''bengali'', ''punjabi'',
    ''tamil'', ''telugu'', ''marathi'', ''gujarati'', ''kannada'', ''urdu'', ''persian'',
    ''ukrainian'', ''romanian'', ''hungarian'', ''czech'', ''slovak'', ''bulgarian'',
    ''croatian'', ''serbian'', ''finnish'', ''danish'', ''icelandic'', ''filipino'',
    ''swahili'', ''zulu'', ''afrikaans'', ''amharic'', ''yoruba'', ''hausa'', ''igbo'',
    ''burmese'', ''khmer'', ''lao'', ''sinhala'', ''nepali'', ''pashto'', ''somali'',
    ''tigrinya'', ''mongolian'', ''kazakh'', ''uzbek'', ''tajik'', ''kyrgyz'', ''turkmen'',
    ''azerbaijani'', ''georgian'', ''armenian'', ''albanian'', ''bosnian'', ''macedonian'',
    ''montenegrin'', ''slovenian'', ''latvian'', ''lithuanian'', ''estonian'', ''maltese'',
    ''luxembourgish'', ''welsh'', ''irish'', ''scottish gaelic'', ''breton'', ''basque'',
    ''galician'', ''catalan'', ''occitan'', ''corsican'', ''sardinian'']"
  by (simp add: supportedLanguages_def trim_def toLowerCase_def lower_char_def js_ws_def
      char_of_def bit_Suc_0_iff)

lemma validate_iff:
  "validateLanguageCode lang = Inr () \<longleftrightarrow> trim (toLowerCase lang) \<in> set [
    ''english'', ''spanish'', ''french'', ''german'', ''chinese'', ''japanese'',
    ''korean'', ''russian'', ''arabic'', ''portuguese'', ''italian'', ''dutch'', ''greek'',
    ''hebrew'', ''hindi'', ''norwegian'', ''polish'', ''swedish'', ''turkish'',
    ''vietnamese'', ''thai'', ''indonesian'', ''malay'', ''bengali'', ''punjabi'',
    ''tamil'', ''telugu'', ''marathi'', ''gujarati'', ''kannada'', ''urdu'', ''persian'',
    ''ukrainian'', ''romanian'', ''hungarian'', ''czech'', ''slovak'', ''bulgarian'',
    ''croatian'', ''serbian'', ''finnish'', ''danish'', ''icelandic'', ''filipino'',
    ''swahili'', ''zulu'', ''afrikaans'', ''amharic'', ''yoruba'', ''hausa'', ''igbo'',
    ''burmese'', ''khmer'', ''lao'', ''sinhala'', ''nepali'', ''pashto'', ''somali'',
    ''tigrinya'', ''mongolian'', ''kazakh'', ''uzbek'', ''tajik'', ''kyrgyz'', ''turkmen'',
    ''azerbaijani'', ''georgian'', ''armenian'', ''albanian'', ''bosnian'', ''macedonian'',
    ''montenegrin'', ''slovenian'', ''latvian'', ''lithuanian'', ''estonian'', ''maltese'',
    ''luxembourgish'', ''welsh'', ''irish'', ''scottish gaelic'', ''breton'', ''basque'',
    ''galician'', ''catalan'', ''occitan'', ''corsican'', ''sardinian'']"
  by (simp only: validateLanguageCode_def normalized_languages split: if_split) simp

lemma validate_cases:
  "validateLanguageCode lang = Inr () \<or> validateLanguageCode lang = Inl (UnsupportedLanguage lang)"
  by (simp add: validateLanguageCode_def)

lemma validate_English: "validateLanguageCode ''English'' = Inr ()"
  unfolding validate_iff
  by (simp add: trim_def toLowerCase_def lower_char_def js_ws_def char_of_def bit_Suc_0_iff)

lemma validate_French: "validateLanguageCode ''French'' = Inr ()"
  unfolding validate_iff
  by (simp add: trim_def toLowerCase_def lower_char_def js_ws_def char_of_def bit_Suc_0_iff)

lemma validate_Spanish: "validateLanguageCode ''Spanish'' = Inr ()"
  unfolding validate_iff
  by (simp add: trim_def toLowerCase_def lower_char_def js_ws_def char_of_def bit_Suc_0_iff)

section \<open>Batching\<close>

lemma batch_loop_num:
  "0 < k \<Longrightarrow> length xs - i < fuel \<Longrightarrow>
   \<exists>bs. batch_loop fuel (Num i) (Num k) xs = Done bs \<and> concat bs = drop i xs
        \<and> (\<forall>b\<in>set bs. length b \<le> k \<and> b \<noteq> [])"
proof (induction fuel arbitrary: i)
  case 0
  then show ?case by simp
next
  case (Suc fuel)
  show ?case
  proof (cases "i < length xs")
    case False
    then show ?thesis by simp
  next
    case True
    with Suc.prems have "length xs - (i + k) < fuel" by arith
    from Suc.IH [OF Suc.prems(1) this] obtain bs where
      bs: "batch_loop fuel (Num (i + k)) (Num k) xs = Done bs" "concat bs = drop (i + k) xs"
        "\<forall>b\<in>set bs. length b \<le> k \<and> b \<noteq> []" by blast
    have "take k (drop i xs) @ drop (i + k) xs = drop i xs"
      by (metis add.commute append_take_drop_id drop_drop)
    with bs True Suc.prems(1) show ?thesis
      by (simp add: slice_def)
  qed
qed

text \<open>
  With \<open>MAX_BATCH_SIZE\<close> absent from the environment the constant is the number 10: the
  loop ends within \<open>length requests + 1\<close> steps, and its batches are non-empty, hold at
  most 10 requests and concatenate to the group.
\<close>

lemma batches_default:
  "\<exists>bs. batches (Suc (length requests)) (MAX_BATCH_SIZE None) requests = Done bs
        \<and> concat bs = requests \<and> (\<forall>b\<in>set bs. length b \<le> 10 \<and> b \<noteq> [])"
  using batch_loop_num [of 10 requests 0 "Suc (length requests)"]
  by (simp add: batches_def MAX_BATCH_SIZE_def)

lemma batches_empty: "batches (Suc fuel) m [] = Done []"
  by (cases m) (simp_all add: batches_def)

text \<open>
  C5. The batches of a group are consecutive slices that concatenate to the group, and
  each batch has at most \<open>MAX_BATCH_SIZE\<close> requests. The size bound fails as soon as
  \<open>MAX_BATCH_SIZE\<close> is set in the environment: the constant is then a string, the
  counter of the loop is advanced by string concatenation, and with the value \<open>5\<close> the
  bounds of the slices are 0, 5 (\<open>"05"\<close>), 55 (\<open>"055"\<close>): twelve requests are cut into a
  batch of five and a batch of seven.
\<close>

theorem env_batch_size_breaks_bound:
  "batches 3 (MAX_BATCH_SIZE (Some ''5'')) [1, 2, 3, 4, 5, 6, 7, 8, 9, 10, 11, 12 :: nat]
     = Done [[1, 2, 3, 4, 5], [6, 7, 8, 9, 10, 11, 12]]"
  by code_simp

section \<open>Empty input\<close>

lemma split_on_nonempty: "split_on c s \<noteq> []"
  by (induction s) (auto split: list.splits)

lemma parse_rows_nonempty: "parse_rows csvData \<noteq> []"
  by (simp add: parse_rows_def split_on_nonempty)


text \<open>In fill mode a table without rows is refused before anything else happens.\<close>

lemma processRows_empty: "processRows fuel m p [] fileName = Done ([], Inl (EmptyFile fileName))"
  by (simp add: processRows_def)

text \<open>In whole-table mode the empty-file error cannot be raised at all.\<close>

lemma whole_table_never_EmptyFile:
  "translateCsvToLanguage fuel m p bn csvData fileName lang \<noteq> Done (calls, Inl (EmptyFile f))"
  by (auto simp: translateCsvToLanguage_def validateLanguageCode_def parse_rows_nonempty Let_def
      prepareAndExecuteTranslations_def split: sum.splits outcome.splits prod.splits)

text \<open>
  C7. In both modes a table with zero rows fails with an empty-input error. In
  whole-table mode it does not: \<open>split\<close> gives one (empty) row for the empty text, the
  test \<open>rows.length === 0\<close> is false, and the run succeeds with an empty file, without
  any call to the provider.
\<close>

theorem whole_table_empty_csv_succeeds:
  "translateCsvToLanguage (Suc fuel) m p bn [] fileName ''French'' =
     Done ([], Inr \<lparr>name = ''translated_'' @ bn fileName, mime_type = ''text/csv'', content = []\<rparr>)"
  by (simp add: translateCsvToLanguage_def validate_French parse_rows_def whole_table_requests_def
      collect_texts_def collect_cell_def truthy_def prepareAndExecuteTranslations_def batches_empty
      translation_map_def translate_cell_def)

section \<open>Request building and deduplication\<close>

lemma first_occurrences_snoc:
  "first_occurrences (xs @ [x]) = (if x \<in> set xs then first_occurrences xs else first_occurrences xs @ [x])"
  by (simp add: first_occurrences_def)

lemma set_first_occurrences: "set (first_occurrences xs) = set xs"
  by (simp add: first_occurrences_def)

lemma foldl_collect_cell:
  "foldl collect_cell [] cells = first_occurrences (filter nonblank cells)"
proof (induction cells rule: rev_induct)
  case Nil
  show ?case by (simp add: first_occurrences_def)
next
  case (snoc x xs)
  then show ?case
    by (simp add: collect_cell_def set_add_def truthy_def nonblank_def first_occurrences_snoc
        set_first_occurrences)
qed

lemma foldl_rows: "foldl (\<lambda>s row. foldl f s row) a rows = foldl f a (concat rows)"
  by (induction rows arbitrary: a) simp_all

lemma collect_texts_eq: "collect_texts rows = first_occurrences (filter nonblank (concat rows))"
  by (simp add: collect_texts_def foldl_rows foldl_collect_cell)

lemma scan_columns_positions:
  "scan_columns i row cols acc = Inr res \<Longrightarrow>
   map position res = map position acc @ map (Pair i) (filter (qualifies row) cols)"
proof (induction cols arbitrary: acc)
  case Nil
  then show ?case by simp
next
  case (Cons target cols)
  then show ?case
    by (auto simp: qualifies_def position_def split: if_splits option.splits sum.splits)
qed

lemma scan_rows_positions:
  "scan_rows i rows acc = Inr res \<Longrightarrow>
   map position res = map position acc @
     concat (map (\<lambda>(i, row). map (Pair i) (filter (qualifies row) (object_keys row))) (enumerate i rows))"
proof (induction rows arbitrary: i acc)
  case Nil
  then show ?case by simp
next
  case (Cons row rows)
  then show ?case
    by (auto split: sum.splits dest!: scan_columns_positions)
qed

lemma build_requests_positions:
  "build_requests rows = Inr reqs \<Longrightarrow> map position reqs = qualifying_cells rows"
  by (auto simp: build_requests_def qualifying_cells_def dest: scan_rows_positions)

lemmas eval_cells = object_keys_def is_missing_def truthy_def trim_def js_ws_def find_source_def cell_text_def

section \<open>Request building in fill mode\<close>

lemma validate_nonempty: "validateLanguageCode lang = Inr () \<Longrightarrow> truthy lang"
  unfolding validate_iff truthy_def
  by (auto simp: trim_def toLowerCase_def)

lemma find_source_in_keys: "find_source row target = Some source \<Longrightarrow> source \<in> set (object_keys row)"
  by (auto simp: find_source_def find_Some_iff)

lemma scan_columns_error:
  "scan_columns i row cols acc = Inl e \<Longrightarrow> \<exists>lang. e = UnsupportedLanguage lang"
proof (induction cols arbitrary: acc)
  case Nil
  then show ?case by simp
next
  case (Cons target cols)
  then show ?case
    by (auto simp: validateLanguageCode_def split: if_splits option.splits sum.splits)
qed

lemma build_requests_error: "build_requests rows = Inl e \<Longrightarrow> \<exists>lang. e = UnsupportedLanguage lang"
proof -
  have "scan_rows i rows acc = Inl e \<Longrightarrow> \<exists>lang. e = UnsupportedLanguage lang" for i acc
    by (induction rows arbitrary: i acc) (auto split: sum.splits dest: scan_columns_error)
  then show "build_requests rows = Inl e \<Longrightarrow> \<exists>lang. e = UnsupportedLanguage lang"
    by (simp add: build_requests_def)
qed

section \<open>Reassembly in fill mode\<close>

lemma apply_request_cells:
  assumes "rowIndex r < length rows"
  shows "\<exists>rows'. apply_request translations rows r = Inr rows' \<and> length rows' = length rows \<and>
           (\<forall>i t. i < length rows \<longrightarrow>
              map_of (rows' ! i) t =
                (if (i, t) = position r
                 then (case find_translation translations (req_text r) of
                         None \<Rightarrow> map_of (rows ! i) t
                       | Some x \<Rightarrow> if translated_text x \<noteq> [] then Some (translated_text x)
                                  else map_of (rows ! i) t)
                 else map_of (rows ! i) t))"
  using assms
  by (auto simp: apply_request_def position_def truthy_def update_conv' nth_list_update
      split: option.splits)



lemma apply_requests_total:
  "\<forall>r\<in>set rs. rowIndex r < length rows \<Longrightarrow> \<exists>rows'. apply_requests translations rows rs = Inr rows'"
proof (induction rs arbitrary: rows)
  case Nil
  show ?case by simp
next
  case (Cons r rs)
  from Cons.prems have "rowIndex r < length rows" by simp
  from apply_request_cells [OF this, of "translations"] obtain mid where
    mid: "apply_request translations rows r = Inr mid" "length mid = length rows" by blast
  with Cons.prems have "\<forall>r\<in>set rs. rowIndex r < length mid" by simp
  from Cons.IH [OF this] mid(1) show ?case by simp
qed

section \<open>Groups\<close>









section \<open>Dispatch\<close>

lemma promise_all_Inr:
  "promise_all rs = Inr xs \<Longrightarrow> rs = map Inr xs"
proof (induction rs arbitrary: xs)
  case Nil
  then show ?case by simp
next
  case (Cons r rs)
  then show ?case by (cases r) (auto split: sum.splits)
qed

lemma promise_all_Inl:
  "promise_all rs = Inl e \<Longrightarrow> Inl e \<in> set rs"
proof (induction rs)
  case Nil
  then show ?case by simp
next
  case (Cons r rs)
  then show ?case by (cases r) (auto split: sum.splits)
qed

lemma length_dispatch: "length (dispatch p n cs) = length cs"
  by (induction cs arbitrary: n) simp_all

lemma nth_dispatch: "k < length cs \<Longrightarrow> dispatch p n cs ! k = p (n + k) (cs ! k)"
proof (induction cs arbitrary: n k)
  case Nil
  then show ?case by simp
next
  case (Cons c cs)
  then show ?case by (cases k) simp_all
qed

lemma dispatch_all_succeed:
  assumes "promise_all (dispatch p n cs) = Inr xs" and "k < length cs"
  shows "p (n + k) (cs ! k) = Inr (xs ! k)"
proof -
  from promise_all_Inr [OF assms(1)] have eq: "dispatch p n cs = map Inr xs" .
  then have "length xs = length cs"
    by (metis length_dispatch length_map)
  with assms(2) eq nth_dispatch [OF assms(2), of p n] show ?thesis
    by simp
qed

lemma prepare_calls_succeed:
  assumes "prepareAndExecuteTranslations fuel m p n requests source target = Done (calls, Inr ts)"
    and "k < length calls"
  shows "\<exists>xs. p (n + k) (calls ! k) = Inr xs"
  using assms
  by (auto simp: prepareAndExecuteTranslations_def Let_def
      split: outcome.splits sum.splits dest: dispatch_all_succeed)

lemma prepare_error_is_thrown:
  "prepareAndExecuteTranslations fuel m p n requests source target = Done (calls, Inl e)
   \<Longrightarrow> \<exists>k msg. k < length calls \<and> p (n + k) (calls ! k) = Inl msg \<and> e = Thrown msg"
proof -
  assume a: "prepareAndExecuteTranslations fuel m p n requests source target = Done (calls, Inl e)"
  then obtain msg where msg: "promise_all (dispatch p n calls) = Inl msg" "e = Thrown msg"
    by (auto simp: prepareAndExecuteTranslations_def Let_def split: outcome.splits sum.splits)
  from promise_all_Inl [OF msg(1)] obtain k where "k < length (dispatch p n calls)"
    "dispatch p n calls ! k = Inl msg"
    by (auto simp: in_set_conv_nth)
  with msg(2) show ?thesis
    by (auto simp: length_dispatch nth_dispatch)
qed

section \<open>The loop over the language pairs\<close>

lemma process_groups_calls_succeed:
  "process_groups fuel m p n groups rows = Done (calls, Inr rows') \<Longrightarrow> k < length calls \<Longrightarrow>
   \<exists>xs. p (n + k) (calls ! k) = Inr xs"
proof (induction groups arbitrary: n rows calls k)
  case Nil
  then show ?case by simp
next
  case (Cons g groups)
  obtain langPair requests where g: "g = (langPair, requests)" by (cases g)
  from Cons.prems(1) g obtain calls1 ts mid calls2 where
    first: "prepareAndExecuteTranslations fuel m p n requests
              (fst (split_pair langPair)) (snd (split_pair langPair)) = Done (calls1, Inr ts)"
    and rest: "process_groups fuel m p (n + length calls1) groups mid = Done (calls2, Inr rows')"
    and calls: "calls = calls1 @ calls2"
    by (auto split: outcome.splits sum.splits prod.splits)
  show ?case
  proof (cases "k < length calls1")
    case True
    with prepare_calls_succeed [OF first True] calls show ?thesis
      by (simp add: nth_append)
  next
    case False
    with Cons.prems(2) calls have "k - length calls1 < length calls2" by simp
    from Cons.IH [OF rest this] False calls show ?thesis
      by (simp add: nth_append)
  qed
qed


section \<open>Fill mode: the requests and the cells left alone\<close>




lemmas eval_defs = build_requests_def hello_table_def hello_request_def scenario_A_table_def
  blank_table_def


section \<open>Failure of a provider call\<close>

lemma processRows_calls_succeed:
  assumes "processRows fuel m p rows fileName = Done (calls, Inr rows')" and "k < length calls"
  shows "\<exists>xs. p k (calls ! k) = Inr xs"
proof -
  from assms have "\<exists>groups. process_groups fuel m p 0 groups rows = Done (calls, Inr rows')"
    by (auto simp: processRows_def split: if_splits sum.splits)
  then obtain groups where "process_groups fuel m p 0 groups rows = Done (calls, Inr rows')" ..
  from process_groups_calls_succeed [OF this assms(2)] show ?thesis by simp
qed

lemma processFile_calls_succeed:
  assumes "processFile fuel m p parse stringify csv_data fileName = Done (calls, Inr out)"
    and "k < length calls"
  shows "\<exists>xs. p k (calls ! k) = Inr xs"
proof -
  from assms(1) obtain rows rows' where "processRows fuel m p rows fileName = Done (calls, Inr rows')"
    by (auto simp: processFile_def split: sum.splits outcome.splits prod.splits)
  from processRows_calls_succeed [OF this assms(2)] show ?thesis .
qed

lemma whole_table_calls_succeed:
  assumes "translateCsvToLanguage fuel m p bn csvData fileName lang = Done (calls, Inr out)"
    and "k < length calls"
  shows "\<exists>xs. p k (calls ! k) = Inr xs"
proof -
  from assms(1) obtain ts where
    "prepareAndExecuteTranslations fuel m p 0 (whole_table_requests (parse_rows csvData))
       ''any language'' lang = Done (calls, Inr ts)"
    by (auto simp: translateCsvToLanguage_def Let_def
        split: sum.splits outcome.splits prod.splits if_splits)
  from prepare_calls_succeed [OF this assms(2)] show ?thesis by simp
qed

text \<open>
  C3. When a call to the provider throws during the run of a table, the run of that
  table ends in an error: no file, and so no cell of the table, is returned.
\<close>

theorem fail_fast:
  "(processFile fuel m p parse stringify csv_data fileName = Done (calls, res)
      \<and> k < length calls \<and> p k (calls ! k) = Inl msg \<longrightarrow> (\<exists>e. res = Inl e))
   \<and> (translateCsvToLanguage fuel m p bn csvData fileName' lang = Done (calls', res')
      \<and> k' < length calls' \<and> p k' (calls' ! k') = Inl msg' \<longrightarrow> (\<exists>e. res' = Inl e))"
proof (intro conjI impI)
  assume a: "processFile fuel m p parse stringify csv_data fileName = Done (calls, res)
      \<and> k < length calls \<and> p k (calls ! k) = Inl msg"
  show "\<exists>e. res = Inl e"
  proof (cases res)
    case (Inl e)
    then show ?thesis by simp
  next
    case (Inr out)
    with a processFile_calls_succeed [of fuel m p parse stringify csv_data fileName calls out k]
    show ?thesis by simp
  qed
next
  assume a: "translateCsvToLanguage fuel m p bn csvData fileName' lang = Done (calls', res')
      \<and> k' < length calls' \<and> p k' (calls' ! k') = Inl msg'"
  show "\<exists>e. res' = Inl e"
  proof (cases res')
    case (Inl e)
    then show ?thesis by simp
  next
    case (Inr out)
    with a whole_table_calls_succeed [of fuel m p bn csvData fileName' lang calls' out k']
    show ?thesis by simp
  qed
qed

lemma hello_fails:
  "processFile (Suc (Suc 0)) (Num 10) failing_provider hello_parser no_stringifier [] ''f.csv'' =
     Done ([\<lparr>texts = [''hello''], call_sourceLang = ''English'', call_targetLang = ''French''\<rparr>],
           Inl (Thrown ''provider unavailable''))"
  by (simp add: processFile_def hello_parser_def processRows_def eval_defs eval_cells
      validate_English validate_French group_requests_def group_add_def pair_key_def split_pair_def
      prepareAndExecuteTranslations_def batches_def slice_def batch_call_def failing_provider_def)

lemma cat_fails:
  "translateCsvToLanguage (Suc (Suc 0)) (Num 10) failing_provider plain_basename ''cat'' ''f.csv'' ''French'' =
     Done ([\<lparr>texts = [''cat''], call_sourceLang = ''any language'', call_targetLang = ''French''\<rparr>],
           Inl (Thrown ''provider unavailable''))"
  by (simp add: translateCsvToLanguage_def validate_French parse_rows_def whole_table_requests_def
      collect_texts_def collect_cell_def set_add_def truthy_def trim_def js_ws_def
      prepareAndExecuteTranslations_def batches_def slice_def batch_call_def failing_provider_def)

theorem fail_fast_witness:
  "processFile (Suc (Suc 0)) (Num 10) failing_provider hello_parser no_stringifier [] ''f.csv'' =
     Done ([\<lparr>texts = [''hello''], call_sourceLang = ''English'', call_targetLang = ''French''\<rparr>],
           Inl (Thrown ''provider unavailable''))
   \<and> translateCsvToLanguage (Suc (Suc 0)) (Num 10) failing_provider plain_basename ''cat'' ''f.csv'' ''French'' =
     Done ([\<lparr>texts = [''cat''], call_sourceLang = ''any language'', call_targetLang = ''French''\<rparr>],
           Inl (Thrown ''provider unavailable''))
   \<and> failing_provider 0 \<lparr>texts = [''hello''], call_sourceLang = ''English'', call_targetLang = ''French''\<rparr>
       = Inl ''provider unavailable''
   \<and> failing_provider 0 \<lparr>texts = [''cat''], call_sourceLang = ''any language'', call_targetLang = ''French''\<rparr>
       = Inl ''provider unavailable''"
  using hello_fails cat_fails
    fail_fast [of "Suc (Suc 0)" "Num 10" failing_provider hello_parser no_stringifier "[]" "''f.csv''"
      "[\<lparr>texts = [''hello''], call_sourceLang = ''English'', call_targetLang = ''French''\<rparr>]"
      "Inl (Thrown ''provider unavailable'')" 0 "''provider unavailable''"
      plain_basename "''cat''" "''f.csv''" "''French''"
      "[\<lparr>texts = [''cat''], call_sourceLang = ''any language'', call_targetLang = ''French''\<rparr>]"
      "Inl (Thrown ''provider unavailable'')" 0 "''provider unavailable''"]
  by (simp add: failing_provider_def)

section \<open>Tables without missing cells\<close>

lemma populated_cell:
  assumes "\<forall>(c, v)\<in>set row. nonblank v" and "col \<in> set (object_keys row)"
  shows "\<not> is_missing (map_of row col)"
proof -
  from assms(2) have "map_of row col \<noteq> None"
    by (simp add: object_keys_def map_of_eq_None_iff)
  then obtain v where v: "map_of row col = Some v" by blast
  then have "(col, v) \<in> set row" by (rule map_of_SomeD)
  with assms(1) have "nonblank v" by auto
  with v show ?thesis by (simp add: is_missing_def nonblank_def truthy_def)
qed

lemma scan_columns_populated:
  assumes "\<forall>(c, v)\<in>set row. nonblank v"
  shows "set cols \<subseteq> set (object_keys row) \<Longrightarrow> scan_columns i row cols acc = Inr acc"
proof (induction cols)
  case Nil
  show ?case by simp
next
  case (Cons target cols)
  with populated_cell [OF assms, of target] show ?case by simp
qed

lemma scan_rows_populated:
  "\<forall>row\<in>set rows. \<forall>(c, v)\<in>set row. nonblank v \<Longrightarrow> scan_rows i rows acc = Inr acc"
proof (induction rows arbitrary: i)
  case Nil
  show ?case by simp
next
  case (Cons row rows)
  then show ?case by (simp add: scan_columns_populated)
qed

text \<open>
  C8, as amended. For a table in fill mode that has at least one row and in which every
  cell is non-blank, no request is emitted, the provider is not called, and the rows
  handed to the serialisation are the rows that were parsed.
\<close>

theorem populated_table_passes_through:
  assumes "rows \<noteq> []" and "\<forall>row\<in>set rows. \<forall>(c, v)\<in>set row. nonblank v"
  shows "build_requests rows = Inr []
         \<and> processRows fuel m p rows fileName = Done ([], Inr rows)
         \<and> processFile fuel m p (\<lambda>csv_data. Inr rows) stringify csv_data fileName =
             Done ([], Inr \<lparr>name = ''translated_'' @ fileName, mime_type = ''text/csv'',
                            content = writeCsvData stringify rows\<rparr>)"
proof -
  have b: "build_requests rows = Inr []"
    by (simp add: build_requests_def scan_rows_populated [OF assms(2)])
  with assms(1) have r: "processRows fuel m p rows fileName = Done ([], Inr rows)"
    by (simp add: processRows_def)
  with b show ?thesis by (simp add: processFile_def)
qed

theorem populated_table_passes_through_witness:
  "full_table \<noteq> [] \<and> list_all (list_all (\<lambda>(c, v). nonblank v)) full_table
   \<and> processRows 0 (Num 10) failing_provider full_table ''f.csv'' = Done ([], Inr full_table)"
proof -
  have a: "full_table \<noteq> []" by (simp add: full_table_def)
  have b: "\<forall>row\<in>set full_table. \<forall>(c, v)\<in>set row. nonblank v"
    by (simp add: full_table_def nonblank_def trim_def js_ws_def)
  have c: "list_all (list_all (\<lambda>(c, v). nonblank v)) full_table"
    by (simp add: full_table_def nonblank_def trim_def js_ws_def)
  from a c populated_table_passes_through [OF a b, of 0 "Num 10" failing_provider "''f.csv''"]
  show ?thesis by simp
qed

text \<open>
  The table without rows has no blank cell either, but it is refused: nothing is handed
  to the serialisation.
\<close>

theorem empty_table_is_refused:
  "processRows 0 (Num 10) failing_provider [] ''f.csv'' = Done ([], Inl (EmptyFile ''f.csv''))"
  by (simp add: processRows_def)

section \<open>Termination with the default batch size\<close>

lemma batches_num:
  "0 < k \<Longrightarrow> length xs < fuel \<Longrightarrow>
   \<exists>bs. batches fuel (Num k) xs = Done bs \<and> concat bs = xs \<and> (\<forall>b\<in>set bs. length b \<le> k \<and> b \<noteq> [])"
  using batch_loop_num [of k xs 0 fuel] by (simp add: batches_def)

lemma prepare_total:
  "0 < k \<Longrightarrow> length requests < fuel \<Longrightarrow>
   \<exists>calls res. prepareAndExecuteTranslations fuel (Num k) p n requests source target = Done (calls, res)"
  using batches_num [of k requests fuel]
  by (auto simp: prepareAndExecuteTranslations_def Let_def)

lemma process_groups_total:
  "0 < k \<Longrightarrow> \<forall>(key, rs)\<in>set groups. length rs < fuel \<Longrightarrow>
   \<exists>calls res. process_groups fuel (Num k) p n groups rows = Done (calls, res)"
proof (induction groups arbitrary: n rows)
  case Nil
  show ?case by simp
next
  case (Cons g groups)
  obtain langPair requests where g: "g = (langPair, requests)" by (cases g)
  with Cons.prems have len: "length requests < fuel" by simp
  from prepare_total [OF Cons.prems(1) len] obtain calls res where
    first: "prepareAndExecuteTranslations fuel (Num k) p n requests
              (fst (split_pair langPair)) (snd (split_pair langPair)) = Done (calls, res)"
    by blast
  show ?case
  proof (cases res)
    case (Inl e)
    with first g show ?thesis by simp
  next
    case (Inr ts)
    show ?thesis
    proof (cases "apply_requests ts rows requests")
      case (Inl e)
      with first Inr g show ?thesis by simp
    next
      case (Inr mid)
      from Cons.prems(2) have "\<forall>(key, rs)\<in>set groups. length rs < fuel" by simp
      from Cons.IH [OF Cons.prems(1) this, of "n + length calls" mid] obtain calls' res' where
        "process_groups fuel (Num k) p (n + length calls) groups mid = Done (calls', res')" by blast
      with first \<open>res = Inr ts\<close> Inr g show ?thesis by simp
    qed
  qed
qed

lemma update_member:
  "(k', v') \<in> set (AList.update k v al) \<Longrightarrow> (k', v') \<in> set al \<or> v' = v"
  by (induction al) (auto split: if_splits)

lemma group_add_length:
  assumes "\<forall>(key, rs)\<in>set groups. length rs \<le> n"
  shows "\<forall>(key, rs)\<in>set (group_add groups r). length rs \<le> Suc n"
proof (cases "map_of groups (pair_key r)")
  case None
  with assms show ?thesis
    by (fastforce simp: group_add_def dest: update_member)
next
  case (Some old)
  then have "(pair_key r, old) \<in> set groups" by (rule map_of_SomeD)
  with assms have "length old \<le> n" by auto
  with assms Some show ?thesis
    by (fastforce simp: group_add_def dest: update_member)
qed

lemma foldl_group_add_length:
  "\<forall>(key, rs)\<in>set groups. length rs \<le> n \<Longrightarrow>
   \<forall>(key, rs)\<in>set (foldl group_add groups reqs). length rs \<le> n + length reqs"
proof (induction reqs arbitrary: groups n)
  case Nil
  then show ?case by simp
next
  case (Cons r reqs)
  from Cons.IH [OF group_add_length [OF Cons.prems, of r]] show ?case by simp
qed

lemma group_requests_length:
  "\<forall>(key, rs)\<in>set (group_requests reqs). length rs \<le> length reqs"
  using foldl_group_add_length [of "[]" 0 reqs] by (simp add: group_requests_def)

lemma length_filter_concat_enumerate:
  "length (concat (map (\<lambda>(i, row). map (Pair i) (filter (P row) (object_keys row))) (enumerate n rows)))
     \<le> length (concat rows)"
proof (induction rows arbitrary: n)
  case Nil
  show ?case by simp
next
  case (Cons row rows)
  have "length (filter (P row) (object_keys row)) \<le> length row"
    using length_filter_le [of "P row" "object_keys row"] by (simp add: object_keys_def)
  with Cons [of "Suc n"] show ?case by simp
qed

lemma build_requests_length:
  "build_requests rows = Inr reqs \<Longrightarrow> length reqs \<le> length (concat rows)"
proof -
  assume "build_requests rows = Inr reqs"
  from build_requests_positions [OF this] have "length reqs = length (qualifying_cells rows)"
    by (metis length_map)
  with length_filter_concat_enumerate [of qualifies 0 rows] show ?thesis
    by (simp add: qualifying_cells_def)
qed

text \<open>
  With \<open>MAX_BATCH_SIZE\<close> unset, fill mode returns: fuel beyond the number of cells of the
  table is enough. Whole-table mode returns with fuel beyond the number of its cells.
\<close>

lemma processRows_returns:
  "length (concat rows) < fuel \<Longrightarrow>
   \<exists>calls res. processRows fuel (MAX_BATCH_SIZE None) p rows fileName = Done (calls, res)"
proof (cases "build_requests rows")
  case (Inl e)
  then show ?thesis by (simp add: processRows_def)
next
  case (Inr reqs)
  assume fuel: "length (concat rows) < fuel"
  from build_requests_length [OF Inr] fuel group_requests_length [of reqs]
  have "\<forall>(key, rs)\<in>set (group_requests reqs). length rs < fuel" by fastforce
  from process_groups_total [OF _ this, of 10 p 0 rows] Inr show ?thesis
    by (auto simp: processRows_def MAX_BATCH_SIZE_def)
qed

lemma length_collect_cell: "length (foldl collect_cell acc cells) \<le> length acc + length cells"
proof (induction cells arbitrary: acc)
  case Nil
  show ?case by simp
next
  case (Cons c cells)
  have "length (collect_cell acc c) \<le> Suc (length acc)"
    by (simp add: collect_cell_def set_add_def)
  with Cons [of "collect_cell acc c"] show ?case by simp
qed

lemma whole_table_returns:
  "length (concat (parse_rows csvData)) < fuel \<Longrightarrow>
   \<exists>calls res. translateCsvToLanguage fuel (MAX_BATCH_SIZE None) p bn csvData fileName lang = Done (calls, res)"
proof -
  assume fuel: "length (concat (parse_rows csvData)) < fuel"
  have "length (whole_table_requests (parse_rows csvData)) \<le> length (concat (parse_rows csvData))"
    using length_collect_cell [of "[]" "concat (parse_rows csvData)"]
    by (simp add: whole_table_requests_def collect_texts_def foldl_rows)
  with fuel have "length (whole_table_requests (parse_rows csvData)) < fuel" by simp
  from prepare_total [OF _ this, of 10 p 0 "''any language''" lang] show ?thesis
    by (auto simp: translateCsvToLanguage_def MAX_BATCH_SIZE_def Let_def split: sum.splits)
qed

section \<open>Reassembly\<close>

lemma translation_map_last:
  "translation_map ts k = map_option translated_text (find (\<lambda>x. original_text x = k) (rev ts))"
proof (induction ts rule: rev_induct)
  case Nil
  show ?case by (simp add: translation_map_def)
next
  case (snoc x xs)
  then show ?case by (simp add: translation_map_def)
qed

lemma translate_cell_mapped: "translate_cell (translation_map ts) = mapped_cell ts"
  by (rule ext)
    (simp add: translate_cell_def mapped_cell_def translation_map_last truthy_def split: option.splits)

lemma whole_table_content:
  assumes "translateCsvToLanguage fuel m p bn csvData fileName lang = Done (calls, Inr out)"
  shows "\<exists>ts. prepareAndExecuteTranslations fuel m p 0 (whole_table_requests (parse_rows csvData))
                ''any language'' lang = Done (calls, Inr ts)
              \<and> content out = join [CHR 0x0A] (map (join '','') (map (map (mapped_cell ts)) (parse_rows csvData)))"
  using assms
  by (auto simp: translateCsvToLanguage_def Let_def translate_cell_mapped
      split: sum.splits outcome.splits prod.splits if_splits)


section \<open>The slices of the loop are consecutive for every batch size\<close>

lemma digits_value_mono: "acc \<le> foldl (\<lambda>a c. 10 * a + digit_val c) acc s"
proof (induction s arbitrary: acc)
  case Nil
  show ?case by simp
next
  case (Cons c s)
  have "acc \<le> 10 * acc + digit_val c" by simp
  also have "\<dots> \<le> foldl (\<lambda>a c. 10 * a + digit_val c) (10 * acc + digit_val c) s" by (rule Cons)
  finally show ?case by simp
qed

lemma digit_val_digit_char: "d < 10 \<Longrightarrow> digit_val (digit_char d) = d"
  by (simp add: digit_val_def digit_char_def)

lemma to_decimal_value: "foldl (\<lambda>a c. 10 * a + digit_val c) 0 (to_decimal n) = n"
proof (induction n rule: to_decimal.induct)
  case (1 n)
  show ?case
  proof (cases "n < 10")
    case True
    then show ?thesis by (simp add: to_decimal.simps [of n] digit_val_digit_char)
  next
    case False
    with 1 show ?thesis
      by (simp add: to_decimal.simps [of n] digit_val_digit_char)
  qed
qed

lemma js_to_string_value:
  "js_to_number i = Some lo \<Longrightarrow> foldl (\<lambda>a c. 10 * a + digit_val c) 0 (js_to_string i) = lo"
  by (cases i) (auto simp: to_decimal_value split: if_splits)

lemma js_add_advances:
  assumes "js_to_number i = Some lo" and "js_to_number (js_add i m) = Some hi"
  shows "lo \<le> hi"
proof (cases "\<exists>a b. i = Num a \<and> m = Num b")
  case True
  with assms show ?thesis by auto
next
  case False
  then have "js_add i m = Str (js_to_string i @ js_to_string m)"
    by (cases i; cases m) simp_all
  with assms(2) have "hi = foldl (\<lambda>a c. 10 * a + digit_val c)
      (foldl (\<lambda>a c. 10 * a + digit_val c) 0 (js_to_string i)) (js_to_string m)"
    by (simp split: if_splits)
  with js_to_string_value [OF assms(1)] digits_value_mono [of lo "js_to_string m"]
  show ?thesis by simp
qed

lemma batch_loop_consecutive:
  "batch_loop fuel i m xs = Done bs \<Longrightarrow> js_to_number i = Some lo \<Longrightarrow> concat bs = drop lo xs"
proof (induction fuel arbitrary: i lo bs)
  case 0
  then show ?case by simp
next
  case (Suc fuel)
  show ?case
  proof (cases "lo < length xs")
    case False
    with Suc.prems show ?thesis by simp
  next
    case True
    with Suc.prems obtain hi bs' where
      hi: "js_to_number (js_add i m) = Some hi"
      and rest: "batch_loop fuel (js_add i m) m xs = Done bs'"
      and bs: "bs = slice lo hi xs # bs'"
      by (auto split: option.splits outcome.splits)
    from js_add_advances [OF Suc.prems(2) hi] have "lo \<le> hi" .
    then have "take (hi - lo) (drop lo xs) @ drop hi xs = drop lo xs"
      by (metis add_diff_inverse_nat append_take_drop_id drop_drop not_less add.commute)
    with Suc.IH [OF rest hi] bs show ?thesis
      by (simp add: slice_def)
  qed
qed

lemma batches_consecutive: "batches fuel m xs = Done bs \<Longrightarrow> concat bs = xs"
  using batch_loop_consecutive [of fuel "Num 0" m xs bs 0] by (simp add: batches_def)

lemma prepare_calls_texts:
  "prepareAndExecuteTranslations fuel m p n requests source target = Done (calls, res) \<Longrightarrow>
   concat (map texts calls) = map req_text requests"
proof -
  assume "prepareAndExecuteTranslations fuel m p n requests source target = Done (calls, res)"
  then obtain bs where bs: "batches fuel m requests = Done bs"
    and calls: "calls = map (batch_call source target) bs"
    by (auto simp: prepareAndExecuteTranslations_def Let_def split: outcome.splits)
  have "concat (map texts calls) = concat (map (map req_text) bs)"
    by (simp add: calls batch_call_def comp_def)
  also have "\<dots> = map req_text (concat bs)"
    by (simp add: map_concat)
  finally show ?thesis
    by (simp add: batches_consecutive [OF bs])
qed

text \<open>
  With \<open>MAX_BATCH_SIZE=0\<close> in the environment the counter goes through \<open>0\<close>, \<open>"00"\<close>,
  \<open>"000"\<close>, all of them the number 0: the loop never ends, whatever the fuel.
\<close>

lemma zeros_number: "js_to_number (Str (replicate (Suc k) CHR ''0'')) = Some 0"
proof -
  have "list_all is_digit (replicate n CHR ''0'')" for n
    by (induction n) (simp_all add: is_digit_def)
  moreover have "foldl (\<lambda>a c. 10 * a + digit_val c) 0 (replicate n CHR ''0'') = 0" for n
    by (induction n) (simp_all add: digit_val_def)
  ultimately show ?thesis
    by (simp del: replicate.simps)
qed

lemma batch_loop_zero:
  "xs \<noteq> [] \<Longrightarrow> batch_loop fuel (Str (replicate (Suc k) CHR ''0'')) (Str ''0'') xs = OutOfFuel"
proof (induction fuel arbitrary: k)
  case 0
  show ?case by simp
next
  case (Suc fuel)
  have next_i: "js_add (Str (replicate (Suc k) CHR ''0'')) (Str ''0'') = Str (replicate (Suc (Suc k)) CHR ''0'')"
    using replicate_append_same [of "Suc k" "CHR ''0''"] by simp
  from Suc.prems have "0 < length xs" by simp
  with Suc.IH [OF Suc.prems, of "Suc k"] zeros_number [of k] zeros_number [of "Suc k"] next_i
  show ?case by (simp del: replicate.simps js_to_number.simps js_add.simps)
qed

lemma batches_zero_diverges:
  "xs \<noteq> [] \<Longrightarrow> batches fuel (MAX_BATCH_SIZE (Some ''0'')) xs = OutOfFuel"
proof (cases fuel)
  case 0
  then show ?thesis by (simp add: batches_def)
next
  case (Suc fuel')
  assume xs: "xs \<noteq> []"
  have first: "js_add (Num 0) (Str ''0'') = Str (replicate (Suc (Suc 0)) CHR ''0'')"
    by (simp add: to_decimal.simps digit_char_def char_of_def bit_Suc_0_iff)
  from xs have "0 < length xs" by simp
  with batch_loop_zero [OF xs, of fuel' "Suc 0"] zeros_number [of "Suc 0"] first Suc
  show ?thesis
    by (simp add: batches_def MAX_BATCH_SIZE_def del: replicate.simps js_to_number.simps js_add.simps)
      (simp add: js_to_number.simps(1))
qed

section \<open>The header line in whole-table mode\<close>

lemma hd_split_on: "hd (split_on c s) = takeWhile (\<lambda>x. x \<noteq> c) s"
proof (induction s)
  case Nil
  show ?case by simp
next
  case (Cons x s)
  then show ?case
    by (cases "split_on c s") (simp_all add: split_on_nonempty)
qed

lemma parse_rows_header:
  "parse_rows csvData = header # body \<Longrightarrow>
   header = split_on CHR '','' (takeWhile (\<lambda>x. x \<noteq> CHR 0x0A) csvData)"
proof -
  assume a: "parse_rows csvData = header # body"
  have "header = hd (parse_rows csvData)" by (simp add: a)
  also have "\<dots> = split_on CHR '','' (hd (split_on (CHR 0x0A) csvData))"
    by (simp add: parse_rows_def hd_map split_on_nonempty)
  finally show ?thesis by (simp add: hd_split_on)
qed

lemma whole_table_texts_sent:
  assumes "translateCsvToLanguage fuel m p bn csvData fileName lang = Done (calls, res)"
    and "calls \<noteq> [] \<or> (\<exists>out. res = Inr out)"
  shows "concat (map texts calls) = first_occurrences (filter nonblank (concat (parse_rows csvData)))"
proof -
  from assms obtain res' where
    "prepareAndExecuteTranslations fuel m p 0 (whole_table_requests (parse_rows csvData))
       ''any language'' lang = Done (calls, res')"
    by (auto simp: translateCsvToLanguage_def Let_def parse_rows_nonempty
        split: sum.splits outcome.splits prod.splits if_splits)
  from prepare_calls_texts [OF this] show ?thesis
    by (simp add: whole_table_requests_def collect_texts_eq comp_def)
qed

text \<open>
  C10, as amended. Whole-table mode splits the text at newlines and commas and treats the
  first line as any other: its non-blank cells are among the texts sent to the provider,
  and in the output each of its cells is replaced by the entry of the translation map for
  it when that entry is not empty.
\<close>

theorem header_line_is_translated:
  "translateCsvToLanguage fuel m p bn csvData fileName lang = Done (calls, Inr out)
     \<and> parse_rows csvData = header # body \<longrightarrow>
   header = split_on CHR '','' (takeWhile (\<lambda>x. x \<noteq> CHR 0x0A) csvData)
   \<and> concat (map texts calls) = first_occurrences (filter nonblank (concat (header # body)))
   \<and> (\<forall>h\<in>set header. nonblank h \<longrightarrow> h \<in> set (concat (map texts calls)))
   \<and> (\<exists>ts. prepareAndExecuteTranslations fuel m p 0 (whole_table_requests (header # body))
               ''any language'' lang = Done (calls, Inr ts)
           \<and> content out =
               join [CHR 0x0A] (join '','' (map (mapped_cell ts) header)
                                # map (join '','') (map (map (mapped_cell ts)) body)))"
proof (intro impI)
  assume a: "translateCsvToLanguage fuel m p bn csvData fileName lang = Done (calls, Inr out)
     \<and> parse_rows csvData = header # body"
  then have run: "translateCsvToLanguage fuel m p bn csvData fileName lang = Done (calls, Inr out)"
    and rows: "parse_rows csvData = header # body" by simp_all
  have sent: "concat (map texts calls) = first_occurrences (filter nonblank (concat (header # body)))"
    using whole_table_texts_sent [OF run] rows by simp
  have "\<forall>h\<in>set header. nonblank h \<longrightarrow> h \<in> set (concat (map texts calls))"
    unfolding sent set_first_occurrences by simp
  with parse_rows_header [OF rows] sent whole_table_content [OF run] rows
  show "header = split_on CHR '','' (takeWhile (\<lambda>x. x \<noteq> CHR 0x0A) csvData)
   \<and> concat (map texts calls) = first_occurrences (filter nonblank (concat (header # body)))
   \<and> (\<forall>h\<in>set header. nonblank h \<longrightarrow> h \<in> set (concat (map texts calls)))
   \<and> (\<exists>ts. prepareAndExecuteTranslations fuel m p 0 (whole_table_requests (header # body))
               ''any language'' lang = Done (calls, Inr ts)
           \<and> content out =
               join [CHR 0x0A] (join '','' (map (mapped_cell ts) header)
                                # map (join '','') (map (map (mapped_cell ts)) body)))"
    by auto
qed

lemma header_translated:
  "translateCsvToLanguage (Suc (Suc 0)) (Num 10) tagging_provider plain_basename name_city_csv ''f.csv'' ''French'' =
     Done ([\<lparr>texts = [''name'', ''Ann''], call_sourceLang = ''any language'', call_targetLang = ''French''\<rparr>],
           Inr \<lparr>name = ''translated_f.csv'', mime_type = ''text/csv'',
                content = ''name[French]'' @ [CHR 0x0A] @ ''Ann[French]''\<rparr>)"
  by (simp add: translateCsvToLanguage_def validate_French parse_rows_def whole_table_requests_def
      collect_texts_def collect_cell_def set_add_def truthy_def trim_def js_ws_def name_city_csv_def
      prepareAndExecuteTranslations_def batches_def slice_def batch_call_def tagging_provider_def
      translation_map_def translate_cell_def plain_basename_def)

theorem header_line_is_translated_witness:
  "translateCsvToLanguage (Suc (Suc 0)) (Num 10) tagging_provider plain_basename name_city_csv ''f.csv'' ''French'' =
     Done ([\<lparr>texts = [''name'', ''Ann''], call_sourceLang = ''any language'', call_targetLang = ''French''\<rparr>],
           Inr \<lparr>name = ''translated_f.csv'', mime_type = ''text/csv'',
                content = ''name[French]'' @ [CHR 0x0A] @ ''Ann[French]''\<rparr>)
   \<and> parse_rows name_city_csv = [''name''] # [[''Ann'']]
   \<and> nonblank ''name''
   \<and> ''name'' \<in> set (concat (map texts
        [\<lparr>texts = [''name'', ''Ann''], call_sourceLang = ''any language'', call_targetLang = ''French''\<rparr>]))"
proof -
  have rows: "parse_rows name_city_csv = [''name''] # [[''Ann'']]"
    by (simp add: parse_rows_def name_city_csv_def)
  note inst = header_line_is_translated [of "Suc (Suc 0)" "Num 10" tagging_provider plain_basename name_city_csv
      "''f.csv''" "''French''"
      "[\<lparr>texts = [''name'', ''Ann''], call_sourceLang = ''any language'', call_targetLang = ''French''\<rparr>]"
      "\<lparr>name = ''translated_f.csv'', mime_type = ''text/csv'',
        content = ''name[French]'' @ [CHR 0x0A] @ ''Ann[French]''\<rparr>"
      "[''name'']" "[[''Ann'']]"]
  have n: "nonblank ''name''"
    by (simp add: nonblank_def trim_def js_ws_def)
  have "''name'' \<in> set [''name'']" by simp
  with inst header_translated rows n show ?thesis by blast
qed

text \<open>
  With a provider that answers every text with an empty translation the map contains the
  header cell, and the header cell stays as it is.
\<close>

theorem header_with_empty_translation_is_kept:
  "translateCsvToLanguage (Suc (Suc 0)) (Num 10) blank_provider plain_basename name_city_csv ''f.csv'' ''French'' =
     Done ([\<lparr>texts = [''name'', ''Ann''], call_sourceLang = ''any language'', call_targetLang = ''French''\<rparr>],
           Inr \<lparr>name = ''translated_f.csv'', mime_type = ''text/csv'',
                content = ''name'' @ [CHR 0x0A] @ ''Ann''\<rparr>)
   \<and> translation_map [\<lparr>original_text = ''name'', translated_text = []\<rparr>,
                       \<lparr>original_text = ''Ann'', translated_text = []\<rparr>] ''name'' = Some []"
  by (simp add: translateCsvToLanguage_def validate_French parse_rows_def whole_table_requests_def
      collect_texts_def collect_cell_def set_add_def truthy_def trim_def js_ws_def name_city_csv_def
      prepareAndExecuteTranslations_def batches_def slice_def batch_call_def blank_provider_def
      translation_map_def translate_cell_def plain_basename_def)

section \<open>The HTTP handler\<close>

lemma all_done_Done: "all_done os = Done xs \<Longrightarrow> os = map Done xs"
proof (induction os arbitrary: xs)
  case Nil
  then show ?case by simp
next
  case (Cons o' os)
  then show ?case by (cases o') (auto split: outcome.splits)
qed

lemma handler_results:
  assumes "all_done (map (\<lambda>(k, ref). handle_file w fuel lang k ref) (enumerate 0 refs)) = Done results"
  shows "length results = length refs \<and>
         (\<forall>k<length refs. handle_file w fuel lang k (refs ! k) = Done (results ! k))"
proof -
  from all_done_Done [OF assms]
  have eq: "map (\<lambda>(k, ref). handle_file w fuel lang k ref) (enumerate 0 refs) = map Done results" .
  then have len: "length results = length refs"
    by (metis length_enumerate length_map)
  have "\<forall>k<length refs. handle_file w fuel lang k (refs ! k) = Done (results ! k)"
  proof (intro allI impI)
    fix k assume k: "k < length refs"
    then have "map (\<lambda>(k, ref). handle_file w fuel lang k ref) (enumerate 0 refs) ! k
                 = handle_file w fuel lang k (refs ! k)"
      by (simp add: nth_enumerate_eq)
    with eq k len show "handle_file w fuel lang k (refs ! k) = Done (results ! k)"
      by simp
  qed
  with len show ?thesis by simp
qed

lemma handler_400:
  "\<not> nonempty_array (openaiFileIdRefs body) \<Longrightarrow>
   translateHandler w fuel body =
     Done \<lparr>status = 400, payload = ErrorBody ''Invalid or empty \"openaiFileIdRefs\" array.''\<rparr>"
  by (cases "openaiFileIdRefs body") (simp_all add: translateHandler_def)

lemma handler_cases:
  assumes "translateHandler w fuel body = Done resp" and "nonempty_array (openaiFileIdRefs body)"
  shows "\<exists>results.
           all_done (map (\<lambda>(k, ref). handle_file w fuel (language body) k ref)
                      (enumerate 0 (array_items (openaiFileIdRefs body)))) = Done results
           \<and> ((\<exists>e. promise_all (map snd results) = Inl e \<and> resp = \<lparr>status = 500, payload = error_body e\<rparr>)
              \<or> (\<exists>files. promise_all (map snd results) = Inr files
                    \<and> resp = \<lparr>status = 200, payload = Files files\<rparr>))"
  using assms
  by (cases "openaiFileIdRefs body")
    (auto simp: translateHandler_def split: outcome.splits sum.splits if_splits)

lemma error_body_nonempty: "\<exists>msg. error_body e = ErrorBody msg \<and> msg \<noteq> []"
  by (simp add: error_body_def truthy_def)

lemma handle_file_download_failure:
  "fetch w (download_link ref) = Response False txt \<Longrightarrow>
   handle_file w fuel lang k ref = Done ([], Inl (DownloadFailed (ref_name ref)))"
  by (simp add: handle_file_def)

lemma handle_file_unsupported_language:
  "fetch w (download_link ref) = Response True txt \<Longrightarrow> l \<noteq> [] \<Longrightarrow>
   validateLanguageCode l \<noteq> Inr () \<Longrightarrow>
   handle_file w fuel (Some l) k ref = Done ([], Inl (UnsupportedLanguage l))"
  using validate_cases [of l]
  by (auto simp: handle_file_def truthy_def translateCsvToLanguage_def)

lemma handle_file_empty_file:
  "fetch w (download_link ref) = Response True txt \<Longrightarrow> parseCsvData w txt = Inr [] \<Longrightarrow>
   handle_file w fuel None k ref = Done ([], Inl (EmptyFile (ref_name ref)))"
  by (simp add: handle_file_def processFile_def processRows_def)

lemma handle_file_provider_failure:
  assumes "handle_file w fuel lang k ref = Done (calls, res)"
    and "j < length calls" and "provider_of w k j (calls ! j) = Inl msg"
  shows "\<exists>e. res = Inl e"
proof (cases res)
  case (Inl e)
  then show ?thesis by simp
next
  case (Inr out)
  with assms(1) have
    "(\<exists>l. translateCsvToLanguage fuel (MAX_BATCH_SIZE (env_MAX_BATCH_SIZE w)) (provider_of w k)
            (basename w) (case fetch w (download_link ref) of Response ok csvData \<Rightarrow> csvData | _ \<Rightarrow> [])
            (ref_name ref) l = Done (calls, Inr out))
     \<or> processFile fuel (MAX_BATCH_SIZE (env_MAX_BATCH_SIZE w)) (provider_of w k)
            (parseCsvData w) (stringifier w)
            (case fetch w (download_link ref) of Response ok csvData \<Rightarrow> csvData | _ \<Rightarrow> [])
            (ref_name ref) = Done (calls, Inr out)"
    by (auto simp: handle_file_def split: fetch_result.splits if_splits)
  with whole_table_calls_succeed [of fuel _ "provider_of w k" _ _ _ _ calls out j]
    processFile_calls_succeed [of fuel _ "provider_of w k" _ _ _ _ calls out j] assms(2,3)
  show ?thesis by fastforce
qed

text \<open>
  The handler answers 400 exactly when \<open>openaiFileIdRefs\<close> is not a non-empty array.
  Otherwise it answers 200 with one file per reference, or, as soon as the processing of
  one file fails, 500 with the message of such a failure as its only content.
\<close>

lemma http_boundary:
  assumes "translateHandler w fuel body = Done resp"
  shows "(status resp = 400 \<longleftrightarrow> \<not> nonempty_array (openaiFileIdRefs body))
    \<and> (status resp = 200 \<or> status resp = 400 \<or> status resp = 500)
    \<and> (status resp = 500 \<longrightarrow>
         (\<exists>k calls e. k < length (array_items (openaiFileIdRefs body))
            \<and> handle_file w fuel (language body) k (array_items (openaiFileIdRefs body) ! k) = Done (calls, Inl e)
            \<and> payload resp = error_body e))
    \<and> (nonempty_array (openaiFileIdRefs body) \<and> k < length (array_items (openaiFileIdRefs body))
          \<and> handle_file w fuel (language body) k (array_items (openaiFileIdRefs body) ! k) = Done (calls, Inl e)
        \<longrightarrow> status resp = 500 \<and> (\<exists>e'. payload resp = error_body e'))
    \<and> (status resp = 200 \<longrightarrow>
         (\<exists>files. payload resp = Files files \<and> length files = length (array_items (openaiFileIdRefs body))
            \<and> (\<forall>j<length files. \<exists>calls'.
                  handle_file w fuel (language body) j (array_items (openaiFileIdRefs body) ! j)
                    = Done (calls', Inr (files ! j)))))"
proof (cases "nonempty_array (openaiFileIdRefs body)")
  case False
  with handler_400 [OF False, of w fuel] assms show ?thesis by auto
next
  case True
  let ?refs = "array_items (openaiFileIdRefs body)"
  from handler_cases [OF assms True] obtain results where
    all: "all_done (map (\<lambda>(k, ref). handle_file w fuel (language body) k ref) (enumerate 0 ?refs)) = Done results"
    and alt: "(\<exists>e. promise_all (map snd results) = Inl e \<and> resp = \<lparr>status = 500, payload = error_body e\<rparr>)
              \<or> (\<exists>files. promise_all (map snd results) = Inr files \<and> resp = \<lparr>status = 200, payload = Files files\<rparr>)"
    by blast
  from handler_results [OF all] have len: "length results = length ?refs"
    and nth: "\<And>j. j < length ?refs \<Longrightarrow> handle_file w fuel (language body) j (?refs ! j) = Done (results ! j)"
    by simp_all
  from alt show ?thesis
  proof
    assume "\<exists>e. promise_all (map snd results) = Inl e \<and> resp = \<lparr>status = 500, payload = error_body e\<rparr>"
    then obtain e' where e': "promise_all (map snd results) = Inl e'"
      and resp: "resp = \<lparr>status = 500, payload = error_body e'\<rparr>" by blast
    from promise_all_Inl [OF e'] obtain j where j: "j < length results" "snd (results ! j) = Inl e'"
      by (auto simp: in_set_conv_nth)
    then have "handle_file w fuel (language body) j (?refs ! j) = Done (fst (results ! j), Inl e')"
      using nth [of j] len by (metis prod.collapse)
    with j(1) len have "\<exists>k calls e. k < length ?refs
            \<and> handle_file w fuel (language body) k (?refs ! k) = Done (calls, Inl e)
            \<and> error_body e' = error_body e" by auto
    with resp True show ?thesis by auto
  next
    assume "\<exists>files. promise_all (map snd results) = Inr files \<and> resp = \<lparr>status = 200, payload = Files files\<rparr>"
    then obtain files where files: "promise_all (map snd results) = Inr files"
      and resp: "resp = \<lparr>status = 200, payload = Files files\<rparr>" by blast
    from promise_all_Inr [OF files] have eq: "map snd results = map Inr files" .
    then have flen: "length files = length results" by (metis length_map)
    have each: "snd (results ! j) = Inr (files ! j)" if "j < length results" for j
      using that eq flen by (metis nth_map)
    have ok: "\<forall>j<length files. \<exists>calls'. handle_file w fuel (language body) j (?refs ! j) = Done (calls', Inr (files ! j))"
    proof (intro allI impI)
      fix j assume "j < length files"
      with flen len have j: "j < length ?refs" "j < length results" by simp_all
      from nth [OF j(1)] each [OF j(2)]
      show "\<exists>calls'. handle_file w fuel (language body) j (?refs ! j) = Done (calls', Inr (files ! j))"
        by (metis prod.collapse)
    qed
    have no_failure: "\<not> (k < length ?refs \<and> handle_file w fuel (language body) k (?refs ! k) = Done (calls, Inl e))"
    proof
      assume a: "k < length ?refs \<and> handle_file w fuel (language body) k (?refs ! k) = Done (calls, Inl e)"
      with nth [of k] have "results ! k = (calls, Inl e)" by simp
      with each [of k] a len show False by simp
    qed
    from resp True ok no_failure flen len show ?thesis by auto
  qed
qed

lemma offline_500:
  "translateHandler offline_world 0 one_file =
     Done \<lparr>status = 500, payload = ErrorBody ''Failed to download file: a.csv''\<rparr>"
  by (simp add: translateHandler_def one_file_def offline_world_def handle_file_def error_body_def
      truthy_def enumerate_simps)

lemma full_200:
  "translateHandler full_world 0 one_file =
     Done \<lparr>status = 200,
           payload = Files [\<lparr>name = ''translated_a.csv'', mime_type = ''text/csv'', content = []\<rparr>]\<rparr>"
  by (simp add: translateHandler_def one_file_def full_world_def handle_file_def processFile_def
      processRows_def build_requests_def full_table_def eval_cells writeCsvData_def no_stringifier_def
      enumerate_simps)

lemma no_files_400:
  "translateHandler offline_world 0 no_files =
     Done \<lparr>status = 400, payload = ErrorBody ''Invalid or empty \"openaiFileIdRefs\" array.''\<rparr>"
  by (simp add: translateHandler_def no_files_def)

lemma http_boundary_examples:
  "translateHandler offline_world 0 one_file =
     Done \<lparr>status = 500, payload = ErrorBody ''Failed to download file: a.csv''\<rparr>
   \<and> translateHandler full_world 0 one_file =
     Done \<lparr>status = 200,
           payload = Files [\<lparr>name = ''translated_a.csv'', mime_type = ''text/csv'', content = []\<rparr>]\<rparr>
   \<and> translateHandler offline_world 0 no_files =
     Done \<lparr>status = 400, payload = ErrorBody ''Invalid or empty \"openaiFileIdRefs\" array.''\<rparr>
   \<and> nonempty_array (openaiFileIdRefs one_file)
   \<and> handle_file offline_world 0 (language one_file) 0 (array_items (openaiFileIdRefs one_file) ! 0)
       = Done ([], Inl (DownloadFailed ''a.csv''))"
proof -
  have a: "nonempty_array (openaiFileIdRefs one_file)"
    by (simp add: one_file_def)
  have b: "handle_file offline_world 0 (language one_file) 0 (array_items (openaiFileIdRefs one_file) ! 0)
       = Done ([], Inl (DownloadFailed ''a.csv''))"
    by (simp add: one_file_def offline_world_def handle_file_def)
  from a b offline_500 full_200 no_files_400
    http_boundary [OF offline_500, of 0 "[]" "DownloadFailed ''a.csv''"]
    http_boundary [OF full_200] http_boundary [OF no_files_400]
  show ?thesis by blast
qed

text \<open>
  With \<open>MAX_BATCH_SIZE\<close> unset the handler answers, given fuel beyond the number of cells
  of every downloaded table.
\<close>

lemma processFile_returns:
  assumes "case parse csv_data of Inl msg \<Rightarrow> True | Inr rows \<Rightarrow> length (concat rows) < fuel"
  shows "\<exists>calls res. processFile fuel (MAX_BATCH_SIZE None) p parse stringify csv_data fileName = Done (calls, res)"
proof (cases "parse csv_data")
  case (Inl msg)
  then show ?thesis by (simp add: processFile_def)
next
  case (Inr rows)
  with assms have "length (concat rows) < fuel" by simp
  from processRows_returns [OF this, of p fileName] obtain calls res where
    "processRows fuel (MAX_BATCH_SIZE None) p rows fileName = Done (calls, res)" by blast
  with Inr show ?thesis by (cases res) (simp_all add: processFile_def)
qed

lemma handle_file_returns:
  assumes "env_MAX_BATCH_SIZE w = None" and "enough_fuel w fuel ref"
  shows "\<exists>calls res. handle_file w fuel lang k ref = Done (calls, res)"
proof (cases "fetch w (download_link ref)")
  case (FetchThrows msg)
  then show ?thesis by (simp add: handle_file_def)
next
  case (Response ok csvData)
  with assms(2) have a: "length (concat (parse_rows csvData)) < fuel"
    and b: "case parseCsvData w csvData of Inl msg \<Rightarrow> True | Inr rows \<Rightarrow> length (concat rows) < fuel"
    by (simp_all add: enough_fuel_def)
  from whole_table_returns [OF a]
    processFile_returns [where parse = "parseCsvData w" and csv_data = csvData and fuel = fuel, OF b]
    Response assms(1) show ?thesis
    by (simp add: handle_file_def)
qed

lemma all_done_map:
  "\<forall>x\<in>set xs. \<exists>r. f x = Done r \<Longrightarrow> \<exists>rs. all_done (map f xs) = Done rs"
proof (induction xs)
  case Nil
  show ?case by simp
next
  case (Cons x xs)
  then obtain r rs where "f x = Done r" "all_done (map f xs) = Done rs" by auto
  then show ?case by simp
qed

lemma translateHandler_returns:
  assumes "env_MAX_BATCH_SIZE w = None"
    and "\<forall>ref\<in>set (array_items (openaiFileIdRefs body)). enough_fuel w fuel ref"
  shows "\<exists>resp. translateHandler w fuel body = Done resp"
proof (cases "openaiFileIdRefs body")
  case NotAnArray
  then show ?thesis by (simp add: translateHandler_def)
next
  case (Array refs)
  have "\<forall>x\<in>set (enumerate 0 refs). \<exists>r. (\<lambda>(k, ref). handle_file w fuel (language body) k ref) x = Done r"
  proof
    fix x assume "x \<in> set (enumerate 0 refs)"
    then have "fst x < length refs" "snd x = refs ! fst x"
      by (simp_all add: in_set_enumerate_eq)
    then have "snd x \<in> set refs" by simp
    with assms(2) Array have "enough_fuel w fuel (snd x)" by simp
    from handle_file_returns [OF assms(1) this, of "language body" "fst x"]
    show "\<exists>r. (\<lambda>(k, ref). handle_file w fuel (language body) k ref) x = Done r"
      by (auto simp: case_prod_beta)
  qed
  from all_done_map [OF this] obtain rs where
    "all_done (map (\<lambda>(k, ref). handle_file w fuel (language body) k ref) (enumerate 0 refs)) = Done rs"
    by blast
  with Array show ?thesis
    by (cases "promise_all (map snd rs)") (simp_all add: translateHandler_def)
qed

section \<open>The requests of fill mode against the specification\<close>

lemma is_missing_filled: "is_missing (map_of row col) = (\<not> filled row col)"
  by (simp add: is_missing_def filled_def nonblank_def truthy_def split: option.splits)

lemma find_first_filled:
  "find (\<lambda>col. col \<noteq> target \<and> \<not> is_missing (map_of row col)) cols = first_filled row target cols"
  by (induction cols) (simp_all add: is_missing_filled)

lemma find_source_first_filled: "find_source row target = first_filled row target (map fst row)"
  by (simp add: find_source_def object_keys_def find_first_filled)

lemma cell_text_value_at: "cell_text row col = value_at row col"
  by (simp add: cell_text_def value_at_def)

lemma first_unsupported_Nil: "first_unsupported [] = None"
  by (simp add: first_unsupported_def request_names_def)

lemma first_unsupported_Cons:
  "first_unsupported (r # rs) =
     (if validateLanguageCode (sourceLang r) \<noteq> Inr () then Some (sourceLang r)
      else if validateLanguageCode (targetLang r) \<noteq> Inr () then Some (targetLang r)
      else first_unsupported rs)"
  by (simp add: first_unsupported_def request_names_def)

lemma first_unsupported_append:
  "first_unsupported (rs @ rs') =
     (case first_unsupported rs of None \<Rightarrow> first_unsupported rs' | Some lang \<Rightarrow> Some lang)"
  by (induction rs) (simp_all add: first_unsupported_Nil first_unsupported_Cons)

lemma validate_Inl: "validateLanguageCode lang \<noteq> Inr () \<Longrightarrow> validateLanguageCode lang = Inl (UnsupportedLanguage lang)"
  using validate_cases [of lang] by simp

lemma scan_columns_exact:
  "scan_columns i row cols acc =
     (case first_unsupported (named_source (List.map_filter (spec_request i row) cols)) of
        None \<Rightarrow> Inr (acc @ named_source (List.map_filter (spec_request i row) cols))
      | Some lang \<Rightarrow> Inl (UnsupportedLanguage lang))"
proof (induction cols arbitrary: acc)
  case Nil
  show ?case by (simp add: List.map_filter_simps named_source_def first_unsupported_Nil)
next
  case (Cons target cols)
  show ?case
  proof (cases "spec_request i row target")
    case None
    then have "\<not> is_missing (map_of row target) \<or> find_source row target = None"
      by (auto simp: spec_request_def is_missing_filled find_source_first_filled split: if_splits)
    with None Cons [of acc] show ?thesis
      by (auto simp: List.map_filter_simps split: option.splits)
  next
    case (Some r)
    then obtain source where src: "is_missing (map_of row target)" "find_source row target = Some source"
      and r: "r = \<lparr>req_text = cell_text row source, rowIndex = i, sourceLang = source, targetLang = target\<rparr>"
      by (auto simp: spec_request_def is_missing_filled find_source_first_filled cell_text_value_at
          split: if_splits)
    show ?thesis
    proof (cases "source = []")
      case True
      with Some src r Cons [of acc] show ?thesis
        by (simp add: List.map_filter_simps named_source_def truthy_def split: option.splits)
    next
      case False
      note named = False
      show ?thesis
      proof (cases "validateLanguageCode source = Inr ()")
        case False
        with Some src r named validate_Inl [OF False] show ?thesis
          by (simp add: List.map_filter_simps named_source_def truthy_def first_unsupported_Cons
              split: option.splits)
      next
        case True
        note s_ok = True
        show ?thesis
        proof (cases "validateLanguageCode target = Inr ()")
          case False
          with Some src r named s_ok validate_Inl [OF False] show ?thesis
            by (simp add: List.map_filter_simps named_source_def truthy_def first_unsupported_Cons
              split: option.splits)
        next
          case True
          with Some src r named s_ok Cons [of "acc @ [r]"] show ?thesis
            by (simp add: List.map_filter_simps named_source_def truthy_def first_unsupported_Cons
                split: option.splits)
        qed
      qed
    qed
  qed
qed

lemma named_source_append: "named_source (rs @ rs') = named_source rs @ named_source rs'"
  by (simp add: named_source_def)

lemma scan_rows_exact:
  "scan_rows i rows acc =
     (case first_unsupported (named_source (spec_requests_from i rows)) of
        None \<Rightarrow> Inr (acc @ named_source (spec_requests_from i rows))
      | Some lang \<Rightarrow> Inl (UnsupportedLanguage lang))"
proof (induction rows arbitrary: i acc)
  case Nil
  show ?case by (simp add: named_source_def first_unsupported_Nil)
next
  case (Cons row rows)
  show ?case
    by (simp add: scan_columns_exact [of i row "map fst row" acc] Cons object_keys_def
        named_source_append first_unsupported_append split: option.splits)
qed

lemma build_requests_exact:
  "build_requests rows =
     (case first_unsupported (named_source (spec_requests rows)) of
        None \<Rightarrow> Inr (named_source (spec_requests rows))
      | Some lang \<Rightarrow> Inl (UnsupportedLanguage lang))"
  by (simp add: build_requests_def spec_requests_def scan_rows_exact [of 0 rows "[]"]
      split: option.splits)

lemma validate_empty_name: "validateLanguageCode [] \<noteq> Inr ()"
  unfolding validate_iff by (simp add: trim_def toLowerCase_def)

lemma supported_names_are_named:
  "first_unsupported reqs = None \<Longrightarrow> named_source reqs = reqs"
proof (induction reqs)
  case Nil
  show ?case by (simp add: named_source_def)
next
  case (Cons r reqs)
  then show ?case
    using validate_empty_name
    by (auto simp: first_unsupported_Cons named_source_def split: if_splits)
qed

lemma build_requests_supported:
  "first_unsupported (spec_requests rows) = None \<Longrightarrow> build_requests rows = Inr (spec_requests rows)"
  by (simp add: build_requests_exact supported_names_are_named)





lemmas eval_spec = spec_requests_def spec_cells_def spec_request_def has_source_def filled_def
  value_at_def nonblank_def trim_def js_ws_def List.map_filter_simps first_unsupported_def
  request_names_def named_source_def



lemma validate_notes: "validateLanguageCode ''notes'' \<noteq> Inr ()"
  unfolding validate_iff by (simp add: trim_def toLowerCase_def lower_char_def js_ws_def)








lemma notes_table_spec: "spec_requests notes_table = [notes_request]"
  by (simp add: eval_spec notes_table_def notes_request_def)

lemma notes_table_supported: "first_unsupported (spec_requests notes_table) = None"
  by (simp add: notes_table_spec)
    (simp add: notes_request_def first_unsupported_def request_names_def validate_English validate_French)





text \<open>
  A column without a name that holds the only text of a row is found as the source and
  then dropped by the test \<open>if (sourceLang)\<close>: no request, and no validation error.
\<close>

lemma unnamed_source_is_skipped:
  "spec_requests unnamed_table =
     [\<lparr>req_text = ''hello'', rowIndex = 0, sourceLang = [], targetLang = ''French''\<rparr>]
   \<and> build_requests unnamed_table = Inr []"
  by (simp add: eval_spec build_requests_def eval_cells unnamed_table_def)

text \<open>A column that is no language and takes part in no request does no harm.\<close>

lemma unused_column_is_not_validated:
  "validateLanguageCode ''notes'' \<noteq> Inr () \<and> build_requests notes_table = Inr [notes_request]"
  using validate_notes notes_table_supported notes_table_spec build_requests_supported [of notes_table]
  by simp

section \<open>Reassembly in fill mode, request by request\<close>






section \<open>The groups hold each request once, under the key of its pair\<close>











section \<open>The positions of the requests are distinct\<close>












section \<open>Failures at the HTTP boundary\<close>

lemma handle_file_fetch_throws:
  "fetch w (download_link ref) = FetchThrows msg \<Longrightarrow>
   handle_file w fuel lang k ref = Done ([], Inl (Thrown msg))"
  by (simp add: handle_file_def)

lemma handle_file_empty_table:
  "fetch w (download_link ref) = Response True txt \<Longrightarrow> lang = None \<or> lang = Some [] \<Longrightarrow>
   parseCsvData w txt = Inr [] \<Longrightarrow>
   handle_file w fuel lang k ref = Done ([], Inl (EmptyFile (ref_name ref)))"
  by (auto simp: handle_file_def processFile_def processRows_def truthy_def)

text \<open>
  A refused or failed download, an unsupported language, a file that parses to no row in
  fill mode, and a failed call to the provider, for any one of the files, make the
  handler answer 500 with an error message.
\<close>

lemma failures_answer_500:
  assumes "translateHandler w fuel body = Done resp"
    and "openaiFileIdRefs body = Array refs" and "k < length refs"
    and "(\<exists>txt. fetch w (download_link (refs ! k)) = Response False txt)
       \<or> (\<exists>msg. fetch w (download_link (refs ! k)) = FetchThrows msg)
       \<or> (\<exists>txt l. fetch w (download_link (refs ! k)) = Response True txt \<and> language body = Some l
             \<and> l \<noteq> [] \<and> validateLanguageCode l \<noteq> Inr ())
       \<or> (\<exists>txt. fetch w (download_link (refs ! k)) = Response True txt
             \<and> (language body = None \<or> language body = Some []) \<and> parseCsvData w txt = Inr [])
       \<or> (\<exists>calls res j msg. handle_file w fuel (language body) k (refs ! k) = Done (calls, res)
             \<and> j < length calls \<and> provider_of w k j (calls ! j) = Inl msg)"
  shows "status resp = 500 \<and> (\<exists>msg. payload resp = ErrorBody msg \<and> msg \<noteq> [])"
proof -
  from assms(4) have "\<exists>calls e. handle_file w fuel (language body) k (refs ! k) = Done (calls, Inl e)"
    using handle_file_download_failure [of w "refs ! k" _ fuel "language body" k]
      handle_file_fetch_throws [of w "refs ! k" _ fuel "language body" k]
      handle_file_unsupported_language [of w "refs ! k" _ _ fuel k]
      handle_file_empty_table [of w "refs ! k" _ "language body" fuel k]
      handle_file_provider_failure [of w fuel "language body" k "refs ! k"]
    by metis
  then obtain calls e where
    f: "handle_file w fuel (language body) k (refs ! k) = Done (calls, Inl e)" by blast
  from assms(2,3) have n: "nonempty_array (openaiFileIdRefs body)"
    "k < length (array_items (openaiFileIdRefs body))" by auto
  from http_boundary [OF assms(1), of k calls e] n f assms(2)
  have "status resp = 500 \<and> (\<exists>e'. payload resp = error_body e')" by simp
  with error_body_nonempty show ?thesis by metis
qed

text \<open>
  C9. The handler answers 500 for every failure other than a malformed
  \<open>openaiFileIdRefs\<close>, an empty file among them. For an empty file in whole-table mode
  it answers 200 with an empty translated file: the empty text splits into one row, so
  the empty-file test of \<open>translateCsvToLanguage\<close> does not fire, where the same file
  in fill mode gives 500.
\<close>

theorem empty_file_answers_200:
  "translateHandler empty_world (Suc 0) one_file_french =
     Done \<lparr>status = 200,
           payload = Files [\<lparr>name = ''translated_a.csv'', mime_type = ''text/csv'', content = []\<rparr>]\<rparr>
   \<and> translateHandler empty_world (Suc 0) one_file =
     Done \<lparr>status = 500, payload = ErrorBody ''The CSV file a.csv is empty.''\<rparr>"
  by (simp add: translateHandler_def one_file_french_def one_file_def empty_world_def handle_file_def
      truthy_def enumerate_simps plain_basename_def processFile_def processRows_def error_body_def
      translateCsvToLanguage_def validate_French parse_rows_def whole_table_requests_def
      collect_texts_def collect_cell_def prepareAndExecuteTranslations_def batches_empty
      MAX_BATCH_SIZE_def translation_map_def translate_cell_def)

end
